theory Spec2Isabelle
  imports Main
begin

section \<open>GenTaxAI chat service: the conversation engine of \<open>gentaxai/main.py\<close>\<close>

text \<open>
  The development embeds the request handler \<open>chat_endpoint\<close>, the persistence
  function \<open>save_sessions\<close>, the start-up load of \<open>CONVERSATIONS\<close> and
  \<open>to_langchain_messages\<close>.

  Python strings are modelled as \<open>string\<close>, one \<open>char\<close> per code point, so the
  model covers the strings whose code points lie below 256. The external
  collaborators (the retriever, the language model, \<open>uuid.uuid4\<close>, the text
  written by \<open>json.dump\<close> and the file system) are not part of the program:
  what they return for one request is a parameter of the model (the record
  \<open>env\<close>). The JSON library itself is modelled in its own section. The
  \<open>print\<close> calls of the two \<open>except\<close> branches write to the console only and
  are left out.
\<close>

subsection \<open>Python built-ins used by the handler\<close>

text \<open>\<open>str.isspace\<close> on the code points below 256, and \<open>str.strip()\<close>.\<close>

definition isspace :: "char \<Rightarrow> bool" where
  "isspace c = (of_char c \<in> {9, 10, 11, 12, 13, 28, 29, 30, 31, 32, 133, 160 :: nat})"

definition strip :: "string \<Rightarrow> string" where
  "strip s = rev (dropWhile isspace (rev (dropWhile isspace s)))"

text \<open>\<open>str(n)\<close> for an \<open>int\<close>: decimal digits, a minus sign for negatives.\<close>

definition digit_char :: "nat \<Rightarrow> char" where
  "digit_char d = char_of (48 + d)"

fun str_nat :: "nat \<Rightarrow> string" where
  "str_nat n = (if n < 10 then [digit_char n] else str_nat (n div 10) @ [digit_char (n mod 10)])"

declare str_nat.simps [simp del]

definition str_int :: "int \<Rightarrow> string" where
  "str_int i = (if i < 0 then CHR ''-'' # str_nat (nat (- i)) else str_nat (nat i))"

text \<open>\<open>sep.join(xs)\<close>.\<close>

fun join :: "string \<Rightarrow> string list \<Rightarrow> string" where
  "join sep [] = []"
| "join sep [x] = x"
| "join sep (x # y # ys) = x @ sep @ join sep (y # ys)"

text \<open>
  The values a retrieved snippet may hold under a key, and \<open>str(v)\<close> on them.
\<close>

datatype pyval = PyStr string | PyInt int | PyNone

fun str_py :: "pyval \<Rightarrow> string" where
  "str_py (PyStr s) = s"
| "str_py (PyInt i) = str_int i"
| "str_py PyNone = ''None''"

text \<open>A snippet is a dictionary; \<open>hit.get(key, default)\<close>.\<close>

type_synonym hit = "string \<rightharpoonup> pyval"

definition get :: "hit \<Rightarrow> string \<Rightarrow> pyval \<Rightarrow> pyval" where
  "get hit key dflt = (case hit key of None \<Rightarrow> dflt | Some v \<Rightarrow> v)"

subsection \<open>Data model\<close>

text \<open>A turn is the dictionary \<open>{"role": ..., "content": ...}\<close>.\<close>

record turn =
  role :: string
  content :: string

type_synonym conversations = "string \<rightharpoonup> turn list"

text \<open>\<open>ChatQuery\<close> and \<open>ChatResponse\<close> (the response's fields carry the prefix \<open>resp_\<close>).\<close>

record ChatQuery =
  question :: "string option"
  session_id :: "string option"

text \<open>An entry of \<open>citations_payload\<close>: the dictionary with keys \<open>id\<close>, \<open>source\<close>, \<open>chunk_id\<close>.\<close>

record citation =
  cit_id :: string
  cit_source :: string
  cit_chunk_id :: string

record ChatResponse =
  resp_answer :: string
  resp_session_id :: "string option"
  resp_citations :: "citation list option"

datatype message = SystemMessage string | HumanMessage string | AIMessage string

definition SYSTEM_PROMPT :: string where
  "SYSTEM_PROMPT =
     ''You are GenTaxAI, a precise and helpful Indian tax assistant.\<newline>'' @
     ''You specialize in Indian taxation including Income Tax, GST, MSME, RBI, SEBI and related compliance.\<newline>'' @
     ''Use the provided CONTEXT snippets as the primary source of truth. If a user asks '' @
     ''for something covered in context, quote or paraphrase that accurately. If the answer '' @
     ''is not in context, answer from your knowledge carefully and clearly say when you are not certain.\<newline>'' @
     ''Always prefer official wording in the snippets when giving definitions or rules.\<newline>'' @
     ''Keep responses concise but comprehensive.''"

subsection \<open>External collaborators and the state of the process\<close>

text \<open>
  What the collaborators do during one request. \<open>retrieve\<close> returns a list of
  snippets, \<open>None\<close>, or raises (\<open>Inl\<close> carries \<open>str(e)\<close>); \<open>llm_invoke\<close>
  returns \<open>response.content\<close> or raises; \<open>json_dump\<close> is the text that
  \<open>json.dump(..., indent=2, ensure_ascii=False)\<close> produces; \<open>file_write\<close> says
  how writing \<open>sessions.json\<close> goes: \<open>open\<close> in mode \<open>"w"\<close> raises, or the
  dump raises after \<open>n\<close> characters have been written, or all is written.
\<close>

datatype write_outcome = WriteOk | OpenFails | DumpFails nat

record env =
  uuid4 :: string
  retrieve :: "string \<Rightarrow> nat \<Rightarrow> string + hit list option"
  llm_invoke :: "message list \<Rightarrow> string + string"
  json_dump :: "conversations \<Rightarrow> string"
  file_write :: write_outcome

text \<open>
  The state: the global \<open>CONVERSATIONS\<close>, the content of the file
  \<open>sessions.json\<close> (\<open>None\<close> when the file does not exist), and the calls made
  to the two gateways so far, oldest first.
\<close>

datatype call = Retrieve string nat | Invoke "message list"

record world =
  CONVERSATIONS :: conversations
  sessions_file :: "string option"
  calls :: "call list"

text \<open>
  What the handler can raise: the two \<open>HTTPException\<close>s (status code, detail),
  and the \<open>KeyError\<close> of a subscript \<open>CONVERSATIONS[session_id]\<close> on a missing key.
\<close>

datatype error = HTTPException nat string | KeyError string

subsection \<open>The JSON library\<close>

text \<open>
  \<open>json.dump\<close> and \<open>json.load\<close> belong to Python's standard library, not to the
  repository. They are modelled here after the library, as far as the sessions
  file needs them.

  \<open>json.dump(CONVERSATIONS, f, indent=2, ensure_ascii=False)\<close>: a string is
  written between double quotes; inside, the double quote and the backslash
  are escaped with a backslash, newline, carriage return, tab, backspace and
  form feed as a backslash and the letter \<open>n\<close>, \<open>r\<close>, \<open>t\<close>, \<open>b\<close> or \<open>f\<close>, the
  other characters below 32 as a backslash, \<open>u00\<close> and two lower-case
  hexadecimal digits; every other character is written as it is. A dictionary
  and a list that are not empty are written one item per line, indented by two
  blanks per level, the items separated by a comma; the empty ones as \<open>{}\<close> and
  \<open>[]\<close>. A turn is written with its key \<open>role\<close> first. The store is given by its
  items in the insertion order of the dictionary.
\<close>

abbreviation DQ :: char where "DQ \<equiv> CHR 0x22"

abbreviation BS :: char where "BS \<equiv> CHR 0x5C"

definition hex_digit :: "nat \<Rightarrow> char" where
  "hex_digit d = (if d < 10 then char_of (48 + d) else char_of (87 + d))"

definition esc_char :: "char \<Rightarrow> string" where
  "esc_char c =
     (if c = DQ then [BS, DQ]
      else if c = BS then [BS, BS]
      else if c = CHR 0x0A then [BS, CHR ''n'']
      else if c = CHR 0x0D then [BS, CHR ''r'']
      else if c = CHR 0x09 then [BS, CHR ''t'']
      else if c = CHR 0x08 then [BS, CHR ''b'']
      else if c = CHR 0x0C then [BS, CHR ''f'']
      else if of_char c < (32 :: nat)
        then [BS, CHR ''u'', CHR ''0'', CHR ''0'',
              hex_digit (of_char c div 16), hex_digit (of_char c mod 16)]
      else [c])"

definition dump_str :: "string \<Rightarrow> string" where
  "dump_str s = DQ # concat (map esc_char s) @ [DQ]"

definition dump_turn :: "turn \<Rightarrow> string" where
  "dump_turn t =
     ''{\<newline>      '' @ dump_str ''role'' @ '': '' @ dump_str (role t) @
     '',\<newline>      '' @ dump_str ''content'' @ '': '' @ dump_str (content t) @
     ''\<newline>    }''"

definition dump_turns :: "turn list \<Rightarrow> string" where
  "dump_turns ts =
     (if ts = [] then ''[]''
      else ''[\<newline>    '' @ join '',\<newline>    '' (map dump_turn ts) @ ''\<newline>  ]'')"

definition dump_entry :: "string \<times> turn list \<Rightarrow> string" where
  "dump_entry kv = dump_str (fst kv) @ '': '' @ dump_turns (snd kv)"

definition dump_store :: "(string \<times> turn list) list \<Rightarrow> string" where
  "dump_store items =
     (if items = [] then ''{}''
      else ''{\<newline>  '' @ join '',\<newline>  '' (map dump_entry items) @ ''\<newline>}'')"

text \<open>
  The map \<open>CONVERSATIONS\<close> does not record the insertion order of the
  dictionary: \<open>json_dump_dict ks\<close> is \<open>json.dump\<close> for a dictionary whose keys
  were inserted in the order \<open>ks\<close>.
\<close>

definition items_of :: "string list \<Rightarrow> conversations \<Rightarrow> (string \<times> turn list) list" where
  "items_of ks m = concat (map (\<lambda>k. case m k of None \<Rightarrow> [] | Some ts \<Rightarrow> [(k, ts)]) ks)"

definition json_dump_dict :: "string list \<Rightarrow> conversations \<Rightarrow> string" where
  "json_dump_dict ks m = dump_store (items_of ks m)"

text \<open>
  \<open>json.load\<close>: the scanner of the library for strings, arrays and objects.
  Whitespace is blank, tab, newline and carriage return. \<open>scanstring\<close> reads a
  string after its opening quote, in strict mode (a raw control character is
  an error). \<open>scan_once\<close>, \<open>scan_array\<close> and \<open>scan_object\<close> are the value scanner
  and the loops of \<open>JSONArray\<close> and \<open>JSONObject\<close>; the two loops carry the
  values read so far. Every error of the library is a \<open>JSONDecodeError\<close>, here
  \<open>Malformed\<close>.

  The answer \<open>Beyond\<close> marks what the model does not follow: a four-digit
  escape of a code point above 255, a number or one of the literals
  \<open>null\<close>, \<open>true\<close>, \<open>false\<close>, \<open>NaN\<close>, \<open>Infinity\<close> (none of them is a value of
  the declared type of \<open>CONVERSATIONS\<close>), and a scan that uses up its fuel. The
  fuel bounds the depth of the calls; \<open>json_loads\<close> starts with more fuel than
  the text has characters.
\<close>

datatype json = JString string | JArray "json list" | JObject "(string \<times> json) list"

datatype 'a scan = Scanned 'a string | Malformed | Beyond

definition is_ws :: "char \<Rightarrow> bool" where
  "is_ws c = (c = CHR '' '' \<or> c = CHR 0x09 \<or> c = CHR 0x0A \<or> c = CHR 0x0D)"

definition skip_ws :: "string \<Rightarrow> string" where
  "skip_ws s = dropWhile is_ws s"

definition hex_val :: "char \<Rightarrow> nat option" where
  "hex_val c =
     (let n = (of_char c :: nat) in
      if 48 \<le> n \<and> n \<le> 57 then Some (n - 48)
      else if 97 \<le> n \<and> n \<le> 102 then Some (n - 87)
      else if 65 \<le> n \<and> n \<le> 70 then Some (n - 55)
      else None)"

definition hex4 :: "char \<Rightarrow> char \<Rightarrow> char \<Rightarrow> char \<Rightarrow> nat option" where
  "hex4 a b c d =
     (case (hex_val a, hex_val b, hex_val c, hex_val d) of
        (Some x, Some y, Some z, Some u) \<Rightarrow> Some (((x * 16 + y) * 16 + z) * 16 + u)
      | _ \<Rightarrow> None)"

definition BACKSLASH :: "char \<Rightarrow> char option" where
  "BACKSLASH esc =
     (if esc = DQ then Some DQ
      else if esc = BS then Some BS
      else if esc = CHR ''/'' then Some CHR ''/''
      else if esc = CHR ''b'' then Some (CHR 0x08)
      else if esc = CHR ''f'' then Some (CHR 0x0C)
      else if esc = CHR ''n'' then Some (CHR 0x0A)
      else if esc = CHR ''r'' then Some (CHR 0x0D)
      else if esc = CHR ''t'' then Some (CHR 0x09)
      else None)"

fun push :: "char \<Rightarrow> string scan \<Rightarrow> string scan" where
  "push c (Scanned s r) = Scanned (c # s) r"
| "push c Malformed = Malformed"
| "push c Beyond = Beyond"

fun scanstring :: "string \<Rightarrow> string scan" where
  "scanstring [] = Malformed"
| "scanstring (c # cs) =
     (if c = DQ then Scanned [] cs
      else if c = BS then
        (case cs of
           [] \<Rightarrow> Malformed
         | esc # r \<Rightarrow>
             if esc = CHR ''u'' then
               (case r of
                  a # b # x # d # r' \<Rightarrow>
                    (case hex4 a b x d of
                       None \<Rightarrow> Malformed
                     | Some n \<Rightarrow> if n < 256 then push (char_of n) (scanstring r') else Beyond)
                | _ \<Rightarrow> Malformed)
             else
               (case BACKSLASH esc of
                  None \<Rightarrow> Malformed
                | Some ch \<Rightarrow> push ch (scanstring r)))
      else if of_char c < (32 :: nat) then Malformed
      else push c (scanstring cs))"

definition starts_other_value :: "char \<Rightarrow> bool" where
  "starts_other_value c =
     (c \<in> set ''ntfNI-0123456789'')"

fun scan_once :: "nat \<Rightarrow> string \<Rightarrow> json scan"
  and scan_array :: "nat \<Rightarrow> string \<Rightarrow> json list \<Rightarrow> json scan"
  and scan_object :: "nat \<Rightarrow> string \<Rightarrow> (string \<times> json) list \<Rightarrow> json scan" where
  "scan_once 0 s = Beyond"
| "scan_once (Suc n) s =
     (case s of
        [] \<Rightarrow> Malformed
      | c # r \<Rightarrow>
          if c = DQ then
            (case scanstring r of
               Scanned x r' \<Rightarrow> Scanned (JString x) r'
             | Malformed \<Rightarrow> Malformed
             | Beyond \<Rightarrow> Beyond)
          else if c = CHR ''{'' then
            (case skip_ws r of
               [] \<Rightarrow> Malformed
             | d # r' \<Rightarrow>
                 if d = CHR ''}'' then Scanned (JObject []) r'
                 else if d = DQ then scan_object n r' []
                 else Malformed)
          else if c = CHR ''['' then
            (case skip_ws r of
               [] \<Rightarrow> Malformed
             | d # r' \<Rightarrow>
                 if d = CHR '']'' then Scanned (JArray []) r'
                 else scan_array n (d # r') [])
          else if starts_other_value c then Beyond
          else Malformed)"
| "scan_array 0 s vs = Beyond"
| "scan_array (Suc n) s vs =
     (case scan_once n s of
        Scanned v r \<Rightarrow>
          (case skip_ws r of
             [] \<Rightarrow> Malformed
           | d # r' \<Rightarrow>
               if d = CHR '']'' then Scanned (JArray (vs @ [v])) r'
               else if d = CHR '','' then scan_array n (skip_ws r') (vs @ [v])
               else Malformed)
      | Malformed \<Rightarrow> Malformed
      | Beyond \<Rightarrow> Beyond)"
| "scan_object 0 s ps = Beyond"
| "scan_object (Suc n) s ps =
     (case scanstring s of
        Scanned key r \<Rightarrow>
          (case skip_ws r of
             [] \<Rightarrow> Malformed
           | d # r1 \<Rightarrow>
               if d \<noteq> CHR '':'' then Malformed
               else
                 (case scan_once n (skip_ws r1) of
                    Scanned v r2 \<Rightarrow>
                      (case skip_ws r2 of
                         [] \<Rightarrow> Malformed
                       | d' # r3 \<Rightarrow>
                           if d' = CHR ''}'' then Scanned (JObject (ps @ [(key, v)])) r3
                           else if d' = CHR '','' then
                             (case skip_ws r3 of
                                [] \<Rightarrow> Malformed
                              | q # r4 \<Rightarrow>
                                  if q = DQ then scan_object n r4 (ps @ [(key, v)])
                                  else Malformed)
                           else Malformed)
                  | Malformed \<Rightarrow> Malformed
                  | Beyond \<Rightarrow> Beyond))
      | Malformed \<Rightarrow> Malformed
      | Beyond \<Rightarrow> Beyond)"

declare scan_once.simps [simp del] scan_array.simps [simp del] scan_object.simps [simp del]

datatype decoded = Decoded json | JSONDecodeError | Unmodelled

definition json_loads :: "string \<Rightarrow> decoded" where
  "json_loads s =
     (case scan_once (Suc (length s)) (skip_ws s) of
        Scanned v r \<Rightarrow> if skip_ws r = [] then Decoded v else JSONDecodeError
      | Malformed \<Rightarrow> JSONDecodeError
      | Beyond \<Rightarrow> Unmodelled)"

text \<open>
  The value loaded for a store of the declared type
  \<open>Dict[str, List[Dict[str, str]]]\<close>: an object of arrays of objects with the
  keys \<open>role\<close> and \<open>content\<close> and string values. Of a repeated key the last
  value counts, as in \<open>dict(pairs)\<close>. Any other value is no store of the model.
\<close>

definition as_turn :: "json \<Rightarrow> turn option" where
  "as_turn j =
     (case j of
        JObject ps \<Rightarrow>
          if list_all (\<lambda>p. fst p = ''role'' \<or> fst p = ''content'') ps
          then (case (map_of (rev ps) ''role'', map_of (rev ps) ''content'') of
                  (Some (JString r), Some (JString c)) \<Rightarrow> Some \<lparr>role = r, content = c\<rparr>
                | _ \<Rightarrow> None)
          else None
      | _ \<Rightarrow> None)"

definition as_turns :: "json \<Rightarrow> turn list option" where
  "as_turns j = (case j of JArray vs \<Rightarrow> those (map as_turn vs) | _ \<Rightarrow> None)"

definition as_conversations :: "json \<Rightarrow> conversations option" where
  "as_conversations j =
     (case j of
        JObject ps \<Rightarrow>
          map_option (\<lambda>kvs. map_of (rev kvs))
            (those (map (\<lambda>p. map_option (Pair (fst p)) (as_turns (snd p))) ps))
      | _ \<Rightarrow> None)"

text \<open>The JSON value that the dump of a turn and of a session stands for.\<close>

definition to_json_turn :: "turn \<Rightarrow> json" where
  "to_json_turn t = JObject [(''role'', JString (role t)), (''content'', JString (content t))]"

definition entry_json :: "string \<times> turn list \<Rightarrow> string \<times> json" where
  "entry_json kv = (fst kv, JArray (map to_json_turn (snd kv)))"

text \<open>Fuel that suffices to scan the dump of a store.\<close>

definition fuel_bound :: "(string \<times> turn list) list \<Rightarrow> nat" where
  "fuel_bound items = length items + sum_list (map (\<lambda>kv. length (snd kv)) items) + 5"

subsection \<open>Loading and saving the sessions\<close>

text \<open>
  The module-level load of \<open>CONVERSATIONS\<close>: without the file the store is
  empty; with it, \<open>json.load\<close> gives the store, or raises \<open>JSONDecodeError\<close>,
  which is caught and leaves the store empty. \<open>Other\<close> stands for every other
  outcome: an exception that is not caught, or a loaded value that is not a
  store of the model. Reading an existing file is taken to succeed.
\<close>

datatype startup = Loaded conversations | Other

definition load_CONVERSATIONS :: "string option \<Rightarrow> startup" where
  "load_CONVERSATIONS file =
     (case file of
        None \<Rightarrow> Loaded Map.empty
      | Some txt \<Rightarrow>
          (case json_loads txt of
             Decoded j \<Rightarrow> (case as_conversations j of Some m \<Rightarrow> Loaded m | None \<Rightarrow> Other)
           | JSONDecodeError \<Rightarrow> Loaded Map.empty
           | Unmodelled \<Rightarrow> Other))"

definition save_sessions :: "env \<Rightarrow> world \<Rightarrow> world" where
  "save_sessions e w =
     (case file_write e of
        WriteOk \<Rightarrow> w\<lparr>sessions_file := Some (json_dump e (CONVERSATIONS w))\<rparr>
      | OpenFails \<Rightarrow> w
      | DumpFails n \<Rightarrow> w\<lparr>sessions_file := Some (take n (json_dump e (CONVERSATIONS w)))\<rparr>)"

subsection \<open>The request handler\<close>

fun to_langchain_messages :: "turn list \<Rightarrow> message list" where
  "to_langchain_messages [] = []"
| "to_langchain_messages (msg # history) =
     (if role msg = ''system'' then SystemMessage (content msg) # to_langchain_messages history
      else if role msg = ''user'' then HumanMessage (content msg) # to_langchain_messages history
      else if role msg = ''assistant'' then AIMessage (content msg) # to_langchain_messages history
      else to_langchain_messages history)"

text \<open>
  The loop \<open>for i, hit in enumerate(kb_hits, start=1)\<close> with its two accumulators
  \<open>context_texts\<close> and \<open>citations_payload\<close>.
\<close>

fun kb_hits_loop ::
  "nat \<Rightarrow> hit list \<Rightarrow> string list \<Rightarrow> citation list \<Rightarrow> string list \<times> citation list" where
  "kb_hits_loop i [] context_texts citations_payload = (context_texts, citations_payload)"
| "kb_hits_loop i (hit # kb_hits) context_texts citations_payload =
     (let source = str_py (get hit ''source'' (PyStr ''knowledge_base''));
          chunk_id = str_py (get hit ''chunk_id'' (PyInt (int i)));
          text = strip (str_py (get hit ''text'' (PyStr '''')));
          tag = ''['' @ str_nat i @ ''] '' @ source @ ''#chunk'' @ chunk_id
      in kb_hits_loop (i + 1) kb_hits
           (context_texts @ [tag @ ''\<newline>'' @ text])
           (citations_payload @ [\<lparr>cit_id = str_nat i, cit_source = source, cit_chunk_id = chunk_id\<rparr>]))"

text \<open>The subscript \<open>CONVERSATIONS[session_id]\<close> and \<open>CONVERSATIONS[session_id].append(t)\<close>.\<close>

definition subscript :: "world \<Rightarrow> string \<Rightarrow> error + turn list" where
  "subscript w sid = (case CONVERSATIONS w sid of None \<Rightarrow> Inl (KeyError sid) | Some ts \<Rightarrow> Inr ts)"

definition append_turn :: "string \<Rightarrow> turn \<Rightarrow> world \<Rightarrow> error + world" where
  "append_turn sid t w =
     (case subscript w sid of
        Inl err \<Rightarrow> Inl err
      | Inr ts \<Rightarrow> Inr (w\<lparr>CONVERSATIONS := (CONVERSATIONS w)(sid \<mapsto> ts @ [t])\<rparr>))"

definition chat_endpoint :: "env \<Rightarrow> ChatQuery \<Rightarrow> world \<Rightarrow> (error + ChatResponse) \<times> world" where
  "chat_endpoint e query w =
     (let q = strip (case question query of None \<Rightarrow> '''' | Some s \<Rightarrow> s) in
      if q = '''' then (Inl (HTTPException 400 ''Empty question''), w)
      else
        let sid = (case session_id query of
                     None \<Rightarrow> uuid4 e
                   | Some s \<Rightarrow> if s = '''' then uuid4 e else s);
            w1 = (if CONVERSATIONS w sid = None
                  then w\<lparr>CONVERSATIONS :=
                          (CONVERSATIONS w)(sid \<mapsto> [\<lparr>role = ''system'', content = SYSTEM_PROMPT\<rparr>])\<rparr>
                  else w);
            w2 = w1\<lparr>calls := calls w1 @ [Retrieve q 5]\<rparr>;
            kb_hits = (case retrieve e q 5 of
                         Inl err \<Rightarrow> []
                       | Inr None \<Rightarrow> []
                       | Inr (Some hits) \<Rightarrow> hits);
            (context_texts, citations_payload) = kb_hits_loop 1 kb_hits [] []
        in
        case (if kb_hits \<noteq> []
              then append_turn sid
                     \<lparr>role = ''assistant'',
                      content = ''CONTEXT:\<newline>'' @ join ''\<newline>\<newline>'' context_texts\<rparr> w2
              else Inr w2) of
          Inl err \<Rightarrow> (Inl err, w2)
        | Inr w3 \<Rightarrow>
        case append_turn sid \<lparr>role = ''user'', content = q\<rparr> w3 of
          Inl err \<Rightarrow> (Inl err, w3)
        | Inr w4 \<Rightarrow>
        case subscript w4 sid of
          Inl err \<Rightarrow> (Inl err, w4)
        | Inr history \<Rightarrow>
        let lc_messages = to_langchain_messages history;
            w5 = w4\<lparr>calls := calls w4 @ [Invoke lc_messages]\<rparr>
        in
        case llm_invoke e lc_messages of
          Inl err \<Rightarrow> (Inl (HTTPException 500 (''LLM error: '' @ err)), w5)
        | Inr answer \<Rightarrow>
        case append_turn sid \<lparr>role = ''assistant'', content = answer\<rparr> w5 of
          Inl err \<Rightarrow> (Inl err, w5)
        | Inr w6 \<Rightarrow>
            (Inr \<lparr>resp_answer = answer, resp_session_id = Some sid,
                   resp_citations = Some citations_payload\<rparr>,
             save_sessions e w6))"

text \<open>
  The handler has no \<open>await\<close>, so the requests of one process run one after the
  other: \<open>serve\<close> runs a sequence of them, each with its own collaborators.
\<close>

fun serve :: "world \<Rightarrow> (env \<times> ChatQuery) list \<Rightarrow> world" where
  "serve w [] = w"
| "serve w ((e, query) # rest) = serve (snd (chat_endpoint e query w)) rest"

subsection \<open>The terms of the specification\<close>

text \<open>
  The following definitions are not taken from the code: they name what the
  specification talks about, so that the theorems below can compare it with
  what \<open>chat_endpoint\<close> computes.

  The question after trimming, the session the exchange belongs to, and the
  snippets the exchange works with (none when the retriever raises or returns
  nothing).
\<close>

definition asked :: "ChatQuery \<Rightarrow> string" where
  "asked query = strip (case question query of None \<Rightarrow> '''' | Some s \<Rightarrow> s)"

definition blank :: "ChatQuery \<Rightarrow> bool" where
  "blank query = (case question query of None \<Rightarrow> True | Some s \<Rightarrow> list_all isspace s)"

definition session_of :: "env \<Rightarrow> ChatQuery \<Rightarrow> string" where
  "session_of e query =
     (case session_id query of None \<Rightarrow> uuid4 e | Some s \<Rightarrow> if s = '''' then uuid4 e else s)"

definition retrieved :: "env \<Rightarrow> ChatQuery \<Rightarrow> hit list" where
  "retrieved e query =
     (case retrieve e (asked query) 5 of Inl err \<Rightarrow> [] | Inr None \<Rightarrow> [] | Inr (Some hits) \<Rightarrow> hits)"

text \<open>The preamble turn, and the transcript of a session once it is resolved or created.\<close>

definition system_turn :: turn where
  "system_turn = \<lparr>role = ''system'', content = SYSTEM_PROMPT\<rparr>"

definition opened :: "world \<Rightarrow> string \<Rightarrow> turn list" where
  "opened w sid = (case CONVERSATIONS w sid of None \<Rightarrow> [system_turn] | Some ts \<Rightarrow> ts)"

text \<open>
  The Context Assembler of the specification: the default-filled fields of a
  snippet, the formatted snippet with its 1-based index \<open>i\<close>, the evidence
  block, and the citation of a snippet.
\<close>

definition snippet_source :: "hit \<Rightarrow> string" where
  "snippet_source h = (case h ''source'' of None \<Rightarrow> ''knowledge_base'' | Some v \<Rightarrow> str_py v)"

definition snippet_chunk_id :: "nat \<Rightarrow> hit \<Rightarrow> string" where
  "snippet_chunk_id i h = (case h ''chunk_id'' of None \<Rightarrow> str_nat i | Some v \<Rightarrow> str_py v)"

definition snippet_text :: "hit \<Rightarrow> string" where
  "snippet_text h = strip (case h ''text'' of None \<Rightarrow> '''' | Some v \<Rightarrow> str_py v)"

definition format_snippet :: "nat \<Rightarrow> hit \<Rightarrow> string" where
  "format_snippet i h =
     ''['' @ str_nat i @ ''] '' @ snippet_source h @ ''#chunk'' @ snippet_chunk_id i h
       @ ''\<newline>'' @ snippet_text h"

definition evidence_block :: "hit list \<Rightarrow> string" where
  "evidence_block hits =
     ''CONTEXT:\<newline>'' @
     join ''\<newline>\<newline>'' (map (\<lambda>i. format_snippet (i + 1) (hits ! i)) [0..<length hits])"

definition citation_at :: "nat \<Rightarrow> hit \<Rightarrow> citation" where
  "citation_at i h =
     \<lparr>cit_id = str_nat i, cit_source = snippet_source h, cit_chunk_id = snippet_chunk_id i h\<rparr>"

definition citations_of :: "hit list \<Rightarrow> citation list" where
  "citations_of hits = map (\<lambda>j. citation_at (j + 1) (hits ! j)) [0..<length hits]"

text \<open>
  The turns of one exchange: the evidence turn (if any), the user turn, and the
  transcript handed to the language model.
\<close>

definition evidence_turns :: "hit list \<Rightarrow> turn list" where
  "evidence_turns hits =
     (if hits = [] then [] else [\<lparr>role = ''assistant'', content = evidence_block hits\<rparr>])"

definition user_turn :: "ChatQuery \<Rightarrow> turn" where
  "user_turn query = \<lparr>role = ''user'', content = asked query\<rparr>"

definition answer_turn :: "string \<Rightarrow> turn" where
  "answer_turn answer = \<lparr>role = ''assistant'', content = answer\<rparr>"

definition prompted :: "env \<Rightarrow> ChatQuery \<Rightarrow> world \<Rightarrow> turn list" where
  "prompted e query w =
     opened w (session_of e query) @ evidence_turns (retrieved e query) @ [user_turn query]"

definition answer_turns :: "env \<Rightarrow> ChatQuery \<Rightarrow> world \<Rightarrow> turn list" where
  "answer_turns e query w =
     (case llm_invoke e (to_langchain_messages (prompted e query w)) of
        Inl err \<Rightarrow> []
      | Inr answer \<Rightarrow> [answer_turn answer])"

definition exchange_calls :: "env \<Rightarrow> ChatQuery \<Rightarrow> world \<Rightarrow> call list" where
  "exchange_calls e query w =
     calls w @ [Retrieve (asked query) 5, Invoke (to_langchain_messages (prompted e query w))]"

text \<open>The number of \<open>system\<close> turns of a transcript.\<close>

definition system_count :: "turn list \<Rightarrow> nat" where
  "system_count ts = length (filter (\<lambda>t. role t = ''system'') ts)"

text \<open>The number a string of decimal digits stands for.\<close>

definition decimal_value :: "string \<Rightarrow> nat" where
  "decimal_value s = foldl (\<lambda>a c. 10 * a + (of_char c - 48)) 0 s"

subsection \<open>A worked example\<close>

text \<open>
  The scenario of the specification: no session identifier, the question
  \<open>What is GST?\<close> (here with surrounding blanks), two snippets retrieved, the
  second one without \<open>source\<close> and \<open>chunk_id\<close>, and a store that is empty.
\<close>

definition gst_hit :: hit where
  "gst_hit = [''source'' \<mapsto> PyStr ''gst_act.txt'', ''chunk_id'' \<mapsto> PyInt 7,
              ''text'' \<mapsto> PyStr '' GST is a tax. '']"

definition bare_hit :: hit where
  "bare_hit = [''text'' \<mapsto> PyStr ''Rates vary.'']"

definition demo_env :: env where
  "demo_env =
     \<lparr>uuid4 = ''u-1'',
      retrieve = (\<lambda>q k. Inr (Some [gst_hit, bare_hit])),
      llm_invoke = (\<lambda>ms. Inr ''A tax.''),
      json_dump = (\<lambda>m. ''{}''),
      file_write = WriteOk\<rparr>"

definition demo_query :: ChatQuery where
  "demo_query = \<lparr>question = Some '' What is GST? '', session_id = None\<rparr>"

definition empty_world :: world where
  "empty_world = \<lparr>CONVERSATIONS = Map.empty, sessions_file = None, calls = []\<rparr>"

definition demo_block :: string where
  "demo_block =
     ''CONTEXT:\<newline>'' @
     ''[1] gst_act.txt#chunk7\<newline>GST is a tax.\<newline>\<newline>'' @
     ''[2] knowledge_base#chunk2\<newline>Rates vary.''"

definition demo_citations :: "citation list" where
  "demo_citations =
     [\<lparr>cit_id = ''1'', cit_source = ''gst_act.txt'', cit_chunk_id = ''7''\<rparr>,
      \<lparr>cit_id = ''2'', cit_source = ''knowledge_base'', cit_chunk_id = ''2''\<rparr>]"

text \<open>
  A store with one session and the text \<open>json.dump\<close> writes for it.
\<close>

definition demo_store :: conversations where
  "demo_store = [''s1'' \<mapsto> [\<lparr>role = ''user'', content = ''hi''\<rparr>]]"

definition demo_json :: string where
  \<open>demo_json =
     ''{\<newline>  "s1": [\<newline>    {\<newline>      "role": "user",\<newline>'' @
     ''      "content": "hi"\<newline>    }\<newline>  ]\<newline>}''\<close>

text \<open>
  The transcript of the example before and after the answer, a question of
  blanks only, a language model that fails, a retriever that fails, a second
  question in the same session, and the store of the JSON example with two
  environments whose \<open>json.dump\<close> is the one of the library: one writes the
  file in full, in the other the write fails after ten characters. In
  \<open>demo_env\<close> the text written to the file plays no role and is a placeholder.
\<close>

definition demo_pending :: "turn list" where
  "demo_pending =
     [\<lparr>role = ''system'', content = SYSTEM_PROMPT\<rparr>,
      \<lparr>role = ''assistant'', content = demo_block\<rparr>,
      \<lparr>role = ''user'', content = ''What is GST?''\<rparr>]"

definition demo_transcript :: "turn list" where
  "demo_transcript =
     [\<lparr>role = ''system'', content = SYSTEM_PROMPT\<rparr>,
      \<lparr>role = ''assistant'', content = demo_block\<rparr>,
      \<lparr>role = ''user'', content = ''What is GST?''\<rparr>,
      \<lparr>role = ''assistant'', content = ''A tax.''\<rparr>]"

definition blank_query :: ChatQuery where
  "blank_query = \<lparr>question = Some [CHR 0x09, CHR '' '', CHR 0x0A], session_id = Some ''s1''\<rparr>"

definition llm_down_env :: env where
  "llm_down_env = demo_env\<lparr>llm_invoke := (\<lambda>ms. Inl ''timeout'')\<rparr>"

definition retriever_down_env :: env where
  "retriever_down_env = demo_env\<lparr>retrieve := (\<lambda>q k. Inl ''index missing'')\<rparr>"

definition followup_query :: ChatQuery where
  "followup_query = \<lparr>question = Some ''And VAT?'', session_id = Some ''u-1''\<rparr>"

definition stored_world :: world where
  "stored_world = \<lparr>CONVERSATIONS = demo_store, sessions_file = None, calls = []\<rparr>"

definition json_env :: env where
  "json_env = demo_env\<lparr>json_dump := json_dump_dict [''s1'']\<rparr>"

definition disk_full_env :: env where
  "disk_full_env = json_env\<lparr>file_write := DumpFails 10\<rparr>"

subsection \<open>Basic facts about the built-ins\<close>

lemma strip_eq_Nil_iff: "strip s = [] \<longleftrightarrow> (\<forall>c\<in>set s. isspace c)"
proof
  assume "strip s = []"
  then have "dropWhile isspace (rev (dropWhile isspace s)) = []"
    by (simp add: strip_def)
  then have a: "\<forall>c\<in>set (dropWhile isspace s). isspace c"
    by (metis dropWhile_eq_Nil_conv set_rev)
  have "dropWhile isspace s = []"
  proof (rule ccontr)
    assume n: "dropWhile isspace s \<noteq> []"
    then have "\<not> isspace (hd (dropWhile isspace s))" by (rule hd_dropWhile)
    moreover have "hd (dropWhile isspace s) \<in> set (dropWhile isspace s)" using n by simp
    ultimately show False using a by blast
  qed
  then show "\<forall>c\<in>set s. isspace c" by (metis dropWhile_eq_Nil_conv)
next
  assume "\<forall>c\<in>set s. isspace c"
  then show "strip s = []" by (auto simp: strip_def dest: set_dropWhileD)
qed

lemma strip_decomp:
  "s = takeWhile isspace s @ strip s @ rev (takeWhile isspace (rev (dropWhile isspace s)))"
proof -
  let ?d = "dropWhile isspace s"
  have "?d = strip s @ rev (takeWhile isspace (rev ?d))"
    by (metis strip_def rev_append rev_rev_ident takeWhile_dropWhile_id)
  moreover have "s = takeWhile isspace s @ ?d" by simp
  ultimately show ?thesis by metis
qed

lemma strip_hd: "strip s \<noteq> [] \<Longrightarrow> \<not> isspace (hd (strip s))"
proof -
  assume n: "strip s \<noteq> []"
  let ?d = "dropWhile isspace s"
  have d: "?d = strip s @ rev (takeWhile isspace (rev ?d))"
    by (metis strip_def rev_append rev_rev_ident takeWhile_dropWhile_id)
  have "?d \<noteq> []" using n d by (metis append_is_Nil_conv)
  then have "\<not> isspace (hd ?d)" by (rule hd_dropWhile)
  moreover have "hd ?d = hd (strip s)" using n d by (metis hd_append2)
  ultimately show ?thesis by simp
qed

lemma strip_last: "strip s \<noteq> [] \<Longrightarrow> \<not> isspace (last (strip s))"
proof -
  assume n: "strip s \<noteq> []"
  then have "dropWhile isspace (rev (dropWhile isspace s)) \<noteq> []" by (simp add: strip_def)
  then have "\<not> isspace (hd (dropWhile isspace (rev (dropWhile isspace s))))" by (rule hd_dropWhile)
  then show ?thesis using n by (simp add: strip_def last_rev)
qed

lemma str_int_nat: "str_int (int i) = str_nat i"
  by (simp add: str_int_def)

lemma decimal_value_str_nat: "decimal_value (str_nat n) = n"
proof (induction n rule: str_nat.induct)
  case (1 n)
  show ?case
  proof (cases "n < 10")
    case True
    then show ?thesis
      by (subst str_nat.simps) (simp add: decimal_value_def digit_char_def)
  next
    case False
    with 1 have "decimal_value (str_nat (n div 10)) = n div 10" by simp
    with False show ?thesis
      by (subst str_nat.simps) (simp add: decimal_value_def digit_char_def)
  qed
qed

subsection \<open>The snippet loop computes the evidence block and the citations\<close>

lemma loop_step:
  "kb_hits_loop i (h # hs) ctx cits =
     kb_hits_loop (Suc i) hs (ctx @ [format_snippet i h]) (cits @ [citation_at i h])"
  by (simp add: format_snippet_def citation_at_def snippet_source_def snippet_chunk_id_def
      snippet_text_def get_def str_int_nat Let_def split: option.splits)

lemma loop_eq:
  "kb_hits_loop i hs ctx cits =
     (ctx @ map (\<lambda>j. format_snippet (i + j) (hs ! j)) [0..<length hs],
      cits @ map (\<lambda>j. citation_at (i + j) (hs ! j)) [0..<length hs])"
proof (induction hs arbitrary: i ctx cits)
  case Nil
  show ?case by simp
next
  case (Cons h hs)
  have shift: "\<And>f. map f [0..<Suc (length hs)] = f 0 # map (\<lambda>j. f (Suc j)) [0..<length hs]"
    by (simp add: upt_rec [of 0] map_Suc_upt [symmetric] del: upt_Suc)
  show ?case
    unfolding loop_step Cons.IH
    by (simp add: shift del: upt_Suc)
qed

lemma loop_from_1:
  "kb_hits_loop (Suc 0) hs [] [] =
     (map (\<lambda>j. format_snippet (j + 1) (hs ! j)) [0..<length hs], citations_of hs)"
  by (simp add: loop_eq citations_of_def)

subsection \<open>What one exchange does\<close>

lemma world_updates:
  "w\<lparr>calls := c, CONVERSATIONS := m\<rparr> = \<lparr>CONVERSATIONS = m, sessions_file = sessions_file w, calls = c\<rparr>"
  "w\<lparr>CONVERSATIONS := m, calls := c\<rparr> = \<lparr>CONVERSATIONS = m, sessions_file = sessions_file w, calls = c\<rparr>"
  by (cases w, simp)+

lemma chat_endpoint_blank:
  assumes "asked query = []"
  shows "chat_endpoint e query w = (Inl (HTTPException 400 ''Empty question''), w)"
  using assms unfolding chat_endpoint_def by (simp add: asked_def)

lemma chat_endpoint_nonblank:
  assumes "asked query \<noteq> []"
  shows "chat_endpoint e query w =
     (case llm_invoke e (to_langchain_messages (prompted e query w)) of
        Inl err \<Rightarrow>
          (Inl (HTTPException 500 (''LLM error: '' @ err)),
           \<lparr>CONVERSATIONS = (CONVERSATIONS w)(session_of e query \<mapsto> prompted e query w),
            sessions_file = sessions_file w,
            calls = exchange_calls e query w\<rparr>)
      | Inr answer \<Rightarrow>
          (Inr \<lparr>resp_answer = answer, resp_session_id = Some (session_of e query),
                 resp_citations = Some (citations_of (retrieved e query))\<rparr>,
           save_sessions e
             \<lparr>CONVERSATIONS =
                (CONVERSATIONS w)(session_of e query \<mapsto> prompted e query w @ [answer_turn answer]),
              sessions_file = sessions_file w,
              calls = exchange_calls e query w\<rparr>))"
proof -
  note defs = asked_def [symmetric] session_of_def [symmetric] retrieved_def [symmetric]
    prompted_def opened_def evidence_turns_def user_turn_def answer_turn_def append_turn_def
    subscript_def exchange_calls_def system_turn_def world_updates Let_def
  show ?thesis
  proof (cases "CONVERSATIONS w (session_of e query)")
    case None
    show ?thesis
    proof (cases "retrieved e query = []")
      case True
      with None assms show ?thesis
        unfolding chat_endpoint_def by (simp add: defs citations_of_def split: sum.splits)
    next
      case False
      with None assms show ?thesis
        unfolding chat_endpoint_def
        by (simp add: defs evidence_block_def loop_from_1 split: sum.splits)
    qed
  next
    case (Some old)
    show ?thesis
    proof (cases "retrieved e query = []")
      case True
      with Some assms show ?thesis
        unfolding chat_endpoint_def by (simp add: defs citations_of_def split: sum.splits)
    next
      case False
      with Some assms show ?thesis
        unfolding chat_endpoint_def
        by (simp add: defs evidence_block_def loop_from_1 split: sum.splits)
    qed
  qed
qed

lemma save_sessions_keeps [simp]:
  "CONVERSATIONS (save_sessions e w) = CONVERSATIONS w"
  "calls (save_sessions e w) = calls w"
  by (simp_all add: save_sessions_def split: write_outcome.splits)

lemma CONVERSATIONS_after:
  "CONVERSATIONS (snd (chat_endpoint e query w)) =
     (if asked query = [] then CONVERSATIONS w
      else (CONVERSATIONS w)(session_of e query \<mapsto> prompted e query w @ answer_turns e query w))"
  by (simp add: chat_endpoint_blank chat_endpoint_nonblank answer_turns_def split: sum.splits)

lemma calls_after:
  "calls (snd (chat_endpoint e query w)) =
     (if asked query = [] then calls w else exchange_calls e query w)"
  by (simp add: chat_endpoint_blank chat_endpoint_nonblank split: sum.splits)

lemma sessions_file_after_failure:
  assumes "asked query \<noteq> []"
    and "llm_invoke e (to_langchain_messages (prompted e query w)) = Inl err"
  shows "sessions_file (snd (chat_endpoint e query w)) = sessions_file w"
  using assms by (simp add: chat_endpoint_nonblank)

lemma sessions_file_after_success:
  assumes "fst (chat_endpoint e query w) = Inr resp" and "file_write e = WriteOk"
  shows "sessions_file (snd (chat_endpoint e query w)) =
           Some (json_dump e (CONVERSATIONS (snd (chat_endpoint e query w))))"
proof (cases "asked query = []")
  case True
  with assms show ?thesis by (simp add: chat_endpoint_blank)
next
  case False
  with assms show ?thesis
    by (auto simp add: chat_endpoint_nonblank save_sessions_def split: sum.splits)
qed

lemma success_iff:
  "fst (chat_endpoint e query w) = Inr resp \<longleftrightarrow>
     asked query \<noteq> [] \<and>
     (\<exists>answer. llm_invoke e (to_langchain_messages (prompted e query w)) = Inr answer \<and>
        resp = \<lparr>resp_answer = answer, resp_session_id = Some (session_of e query),
                 resp_citations = Some (citations_of (retrieved e query))\<rparr>)"
  by (cases "asked query = []")
     (auto simp add: chat_endpoint_blank chat_endpoint_nonblank split: sum.splits)

lemma blank_iff: "blank query \<longleftrightarrow> asked query = []"
  by (auto simp add: blank_def asked_def strip_eq_Nil_iff list_all_iff split: option.splits)

lemma system_count_simps [simp]:
  "system_count [] = 0"
  "system_count (t # ts) = (if role t = ''system'' then Suc (system_count ts) else system_count ts)"
  "system_count (xs @ ys) = system_count xs + system_count ys"
  by (simp_all add: system_count_def)

lemma turn_roles [simp]:
  "role (user_turn query) = ''user''"
  "role (answer_turn answer) = ''assistant''"
  by (simp_all add: user_turn_def answer_turn_def)

lemma system_count_exchange [simp]:
  "system_count (evidence_turns hits) = 0"
  "system_count [user_turn query] = 0"
  "system_count (answer_turns e query w) = 0"
  by (simp_all add: evidence_turns_def user_turn_def answer_turns_def answer_turn_def split: sum.splits)

lemma step_extends:
  assumes "CONVERSATIONS w sid = Some ts"
  shows "\<exists>more. CONVERSATIONS (snd (chat_endpoint e query w)) sid = Some (ts @ more) \<and> system_count more = 0"
proof (cases "asked query \<noteq> [] \<and> sid = session_of e query")
  case True
  with assms have "CONVERSATIONS (snd (chat_endpoint e query w)) sid =
      Some (ts @ (evidence_turns (retrieved e query) @ [user_turn query] @ answer_turns e query w))"
    by (simp add: CONVERSATIONS_after prompted_def opened_def)
  moreover have "system_count (evidence_turns (retrieved e query) @ [user_turn query] @ answer_turns e query w) = 0"
    by simp
  ultimately show ?thesis by blast
next
  case False
  with assms have "CONVERSATIONS (snd (chat_endpoint e query w)) sid = Some (ts @ [])"
    by (auto simp add: CONVERSATIONS_after)
  then show ?thesis by (metis system_count_simps(1))
qed

lemma step_creates:
  assumes "CONVERSATIONS w sid = None"
    and "CONVERSATIONS (snd (chat_endpoint e query w)) sid = Some ts"
  shows "\<exists>more. ts = system_turn # more \<and> system_count more = 0"
proof (cases "asked query \<noteq> [] \<and> sid = session_of e query")
  case True
  with assms have "ts = system_turn # (evidence_turns (retrieved e query) @ [user_turn query] @ answer_turns e query w)"
    by (simp add: CONVERSATIONS_after prompted_def opened_def)
  moreover have "system_count (evidence_turns (retrieved e query) @ [user_turn query] @ answer_turns e query w) = 0"
    by simp
  ultimately show ?thesis by blast
next
  case False
  with assms show ?thesis by (auto simp add: CONVERSATIONS_after split: if_splits)
qed

lemma serve_append: "serve w (xs @ ys) = serve (serve w xs) ys"
  by (induction xs arbitrary: w) auto

lemma serve_extends:
  assumes "CONVERSATIONS w sid = Some ts"
  shows "\<exists>more. CONVERSATIONS (serve w reqs) sid = Some (ts @ more) \<and> system_count more = 0"
  using assms
proof (induction reqs arbitrary: w ts)
  case Nil
  then have "CONVERSATIONS (serve w []) sid = Some (ts @ [])" by simp
  then show ?case by (metis system_count_simps(1))
next
  case (Cons r reqs)
  obtain e query where r: "r = (e, query)" by (cases r)
  from step_extends [OF Cons.prems, of e query] obtain m1 where
    s1: "CONVERSATIONS (snd (chat_endpoint e query w)) sid = Some (ts @ m1)" and c1: "system_count m1 = 0"
    by blast
  from Cons.IH [OF s1] obtain m2 where
    s2: "CONVERSATIONS (serve (snd (chat_endpoint e query w)) reqs) sid = Some ((ts @ m1) @ m2)"
    and c2: "system_count m2 = 0" by blast
  have "CONVERSATIONS (serve w (r # reqs)) sid = Some (ts @ (m1 @ m2))" using s2 r by simp
  moreover have "system_count (m1 @ m2) = 0" using c1 c2 by simp
  ultimately show ?case by blast
qed

lemma serve_invariant:
  assumes "\<And>sid ts. CONVERSATIONS w sid = Some ts \<Longrightarrow> \<exists>more. ts = system_turn # more \<and> system_count more = 0"
    and "CONVERSATIONS (serve w reqs) sid = Some ts"
  shows "\<exists>more. ts = system_turn # more \<and> system_count more = 0"
  using assms
proof (induction reqs arbitrary: w)
  case Nil
  then show ?case by simp
next
  case (Cons r reqs)
  obtain e query where r: "r = (e, query)" by (cases r)
  let ?w1 = "snd (chat_endpoint e query w)"
  have inv1: "\<exists>more. ts' = system_turn # more \<and> system_count more = 0"
    if h: "CONVERSATIONS ?w1 sid' = Some ts'" for sid' ts'
  proof (cases "CONVERSATIONS w sid'")
    case None
    then show ?thesis using h by (rule step_creates)
  next
    case (Some old)
    from Cons.prems(1) [OF Some] obtain m0 where o: "old = system_turn # m0" and c0: "system_count m0 = 0"
      by blast
    from step_extends [OF Some, of e query] h obtain m1 where
      t: "ts' = old @ m1" and c1: "system_count m1 = 0" by auto
    have "ts' = system_turn # (m0 @ m1)" using o t by simp
    moreover have "system_count (m0 @ m1) = 0" using c0 c1 by simp
    ultimately show ?thesis by blast
  qed
  from Cons.prems(2) r have "CONVERSATIONS (serve ?w1 reqs) sid = Some ts" by simp
  with Cons.IH [of ?w1] inv1 show ?case by blast
qed

subsection \<open>\<open>json.load\<close> reads back what \<open>json.dump\<close> wrote\<close>

lemma hex_val_hex_digit: "d < 16 \<Longrightarrow> hex_val (hex_digit d) = Some d"
  by (auto simp add: hex_val_def hex_digit_def Let_def)

lemma hex4_control:
  assumes "n < 32"
  shows "hex4 CHR ''0'' CHR ''0'' (hex_digit (n div 16)) (hex_digit (n mod 16)) = Some n"
proof -
  have a: "hex_val (hex_digit (n div 16)) = Some (n div 16)"
    using assms by (intro hex_val_hex_digit) simp
  have b: "hex_val (hex_digit (n mod 16)) = Some (n mod 16)"
    by (intro hex_val_hex_digit) simp
  have z: "hex_val CHR ''0'' = Some 0" by (simp add: hex_val_def)
  show ?thesis by (simp add: hex4_def a b z)
qed

lemma scanstring_esc_char: "scanstring (esc_char c @ t) = push c (scanstring t)"
proof (cases "of_char c < (32::nat) \<and> c \<notin> {CHR 0x0A, CHR 0x0D, CHR 0x09, CHR 0x08, CHR 0x0C}")
  case True
  then have n: "c \<noteq> DQ" "c \<noteq> BS" by auto
  from True have h: "hex4 CHR ''0'' CHR ''0'' (hex_digit (of_char c div 16)) (hex_digit (of_char c mod 16))
      = Some (of_char c)"
    by (intro hex4_control) simp
  have lt: "(of_char c :: nat) < 256" using True by simp
  from True n show ?thesis
    by (simp add: esc_char_def h lt)
next
  case False
  then show ?thesis
    by (auto simp add: esc_char_def BACKSLASH_def)
qed

lemma scanstring_escaped:
  "scanstring (concat (map esc_char s) @ DQ # rest) = Scanned s rest"
  by (induction s) (simp_all add: scanstring_esc_char)

lemma scanstring_dump_str:
  "scanstring (tl (dump_str s) @ rest) = Scanned s rest"
  by (simp add: dump_str_def scanstring_escaped)

lemma skip_ws_simps [simp]:
  "skip_ws [] = []"
  "skip_ws (c # s) = (if is_ws c then skip_ws s else c # s)"
  by (simp_all add: skip_ws_def)

lemma scan_once_string:
  "scan_once (Suc n) (dump_str s @ rest) = Scanned (JString s) rest"
  by (simp add: scan_once.simps dump_str_def scanstring_escaped)

lemma scan_once_brace:
  "scan_once (Suc n) (CHR ''{'' # r) =
     (case skip_ws r of
        [] \<Rightarrow> Malformed
      | d # r' \<Rightarrow>
          if d = CHR ''}'' then Scanned (JObject []) r'
          else if d = DQ then scan_object n r' []
          else Malformed)"
  by (simp add: scan_once.simps)

lemma scan_once_bracket:
  "scan_once (Suc n) (CHR ''['' # r) =
     (case skip_ws r of
        [] \<Rightarrow> Malformed
      | d # r' \<Rightarrow>
          if d = CHR '']'' then Scanned (JArray []) r'
          else scan_array n (d # r') [])"
  by (simp add: scan_once.simps)

lemma key_role: "dump_str ''role'' = DQ # ''role'' @ [DQ]"
  by (simp add: dump_str_def esc_char_def)

lemma key_content: "dump_str ''content'' = DQ # ''content'' @ [DQ]"
  by (simp add: dump_str_def esc_char_def)

lemma skip_ws_dump_str: "skip_ws (dump_str s @ rest) = dump_str s @ rest"
  by (simp add: dump_str_def is_ws_def)

lemma scan_once_turn:
  "scan_once (Suc (Suc (Suc (Suc n)))) (dump_turn t @ rest) = Scanned (to_json_turn t) rest"
  by (simp add: dump_turn_def key_role key_content scan_once_brace scan_object.simps
      scan_once_string skip_ws_dump_str is_ws_def to_json_turn_def)

lemma join_Cons:
  "join sep (x # xs) = x @ (if xs = [] then [] else sep @ join sep xs)"
  by (cases xs) simp_all

lemma skip_ws_to:
  assumes "list_all is_ws pre" and "x \<noteq> []" and "\<not> is_ws (hd x)"
  shows "skip_ws (pre @ x) = x"
  using assms by (induction pre) (cases x, simp_all)+

lemma skip_ws_id:
  assumes "x \<noteq> []" and "\<not> is_ws (hd x)"
  shows "skip_ws x = x"
  using skip_ws_to [of "[]" x] assms by simp

text \<open>One round of the loops of the array and object scanners.\<close>

lemma scan_array_last:
  assumes "scan_once n s = Scanned v r" and "skip_ws r = CHR '']'' # r'"
  shows "scan_array (Suc n) s vs = Scanned (JArray (vs @ [v])) r'"
  using assms by (simp add: scan_array.simps)

lemma scan_array_next:
  assumes "scan_once n s = Scanned v r" and "skip_ws r = CHR '','' # r'"
  shows "scan_array (Suc n) s vs = scan_array n (skip_ws r') (vs @ [v])"
  using assms by (simp add: scan_array.simps)

lemma scan_object_last:
  assumes "scanstring s = Scanned key r" and "skip_ws r = CHR '':'' # r1"
    and "scan_once n (skip_ws r1) = Scanned v r2" and "skip_ws r2 = CHR ''}'' # r3"
  shows "scan_object (Suc n) s ps = Scanned (JObject (ps @ [(key, v)])) r3"
  using assms by (simp add: scan_object.simps)

lemma scan_object_next:
  assumes "scanstring s = Scanned key r" and "skip_ws r = CHR '':'' # r1"
    and "scan_once n (skip_ws r1) = Scanned v r2" and "skip_ws r2 = CHR '','' # r3"
    and "skip_ws r3 = DQ # r4"
  shows "scan_object (Suc n) s ps = scan_object n r4 (ps @ [(key, v)])"
  using assms by (simp add: scan_object.simps)

lemma scan_once_array:
  assumes "skip_ws r = x" and "x \<noteq> []" and "hd x \<noteq> CHR '']''"
  shows "scan_once (Suc n) (CHR ''['' # r) = scan_array n x []"
  using assms by (cases x) (simp_all add: scan_once_bracket)

lemma scan_once_object:
  assumes "skip_ws r = DQ # r'"
  shows "scan_once (Suc n) (CHR ''{'' # r) = scan_object n r' []"
  using assms by (simp add: scan_once_brace)

text \<open>The first character of the dumped pieces.\<close>

lemma dump_turn_starts: "dump_turn t @ x \<noteq> [] \<and> hd (dump_turn t @ x) = CHR ''{''"
  by (simp add: dump_turn_def)

lemma turns_start:
  assumes "ts \<noteq> []"
  shows "join sep (map dump_turn ts) @ x \<noteq> [] \<and> hd (join sep (map dump_turn ts) @ x) = CHR ''{''"
  using assms by (cases ts) (simp_all add: join_Cons dump_turn_def)

lemma dump_turns_starts: "dump_turns ts @ x \<noteq> [] \<and> hd (dump_turns ts @ x) = CHR ''[''"
  by (simp add: dump_turns_def)

lemma entries_start:
  assumes "items \<noteq> []"
  shows "join sep (map dump_entry items) @ x = DQ # tl (join sep (map dump_entry items)) @ x"
  using assms by (cases items) (simp_all add: join_Cons dump_entry_def dump_str_def)

lemma scan_array_turns:
  assumes "ts \<noteq> []" and "length ts + 4 \<le> n"
  shows "scan_array n (join '',\<newline>    '' (map dump_turn ts) @ ''\<newline>  ]'' @ rest) vs =
           Scanned (JArray (vs @ map to_json_turn ts)) rest"
  using assms
proof (induction ts arbitrary: n vs)
  case Nil
  then show ?case by simp
next
  case (Cons t ts)
  define m where "m = n - 5"
  have n: "n = Suc (Suc (Suc (Suc (Suc m))))" and m: "length ts \<le> m"
    using Cons.prems(2) by (simp_all add: m_def)
  let ?k = "Suc (Suc (Suc (Suc m)))"
  have one: "scan_once ?k (dump_turn t @ x) = Scanned (to_json_turn t) x" for x
    by (rule scan_once_turn)
  show ?case
  proof (cases "ts = []")
    case True
    have "scan_array (Suc ?k) (dump_turn t @ ''\<newline>  ]'' @ rest) vs
            = Scanned (JArray (vs @ [to_json_turn t])) rest"
      by (rule scan_array_last [OF one]) (simp add: is_ws_def)
    then show ?thesis by (simp add: True n)
  next
    case False
    let ?more = "join '',\<newline>    '' (map dump_turn ts) @ ''\<newline>  ]'' @ rest"
    have fuel: "length ts + 4 \<le> ?k" using m by simp
    have skip: "skip_ws (''\<newline>    '' @ ?more) = ?more"
      by (rule skip_ws_to) (use turns_start [OF False] in \<open>simp_all add: is_ws_def\<close>)
    have "scan_array (Suc ?k) (dump_turn t @ '','' @ ''\<newline>    '' @ ?more) vs
            = scan_array ?k (skip_ws (''\<newline>    '' @ ?more)) (vs @ [to_json_turn t])"
      by (rule scan_array_next [OF one]) (simp add: is_ws_def)
    also have "\<dots> = scan_array ?k ?more (vs @ [to_json_turn t])"
      by (simp only: skip)
    also have "\<dots> = Scanned (JArray ((vs @ [to_json_turn t]) @ map to_json_turn ts)) rest"
      by (rule Cons.IH [OF False fuel])
    finally show ?thesis by (simp add: False n join_Cons)
  qed
qed

lemma scan_once_turns:
  assumes "length ts + 5 \<le> n"
  shows "scan_once n (dump_turns ts @ rest) = Scanned (JArray (map to_json_turn ts)) rest"
proof -
  define m where "m = n - 1"
  have n: "n = Suc m" and m: "length ts + 4 \<le> m" using assms by (simp_all add: m_def)
  show ?thesis
  proof (cases "ts = []")
    case True
    then show ?thesis by (simp add: n dump_turns_def scan_once_bracket is_ws_def)
  next
    case False
    let ?body = "join '',\<newline>    '' (map dump_turn ts) @ ''\<newline>  ]'' @ rest"
    have skip: "skip_ws (''\<newline>    '' @ ?body) = ?body"
      by (rule skip_ws_to) (use turns_start [OF False] in \<open>simp_all add: is_ws_def\<close>)
    have "scan_once (Suc m) (CHR ''['' # ''\<newline>    '' @ ?body) = scan_array m ?body []"
      by (rule scan_once_array [OF skip]) (use turns_start [OF False] in simp_all)
    also have "\<dots> = Scanned (JArray ([] @ map to_json_turn ts)) rest"
      by (rule scan_array_turns [OF False m])
    finally show ?thesis by (simp add: n dump_turns_def False)
  qed
qed

lemma tl_dump_entry:
  "tl (dump_entry kv) = concat (map esc_char (fst kv)) @ DQ # '': '' @ dump_turns (snd kv)"
  by (simp add: dump_entry_def dump_str_def)

lemma tl_dump_entry_append: "tl (dump_entry kv @ x) = tl (dump_entry kv) @ x"
  by (simp add: dump_entry_def dump_str_def)

lemma scan_object_entries:
  assumes "items \<noteq> []" and "fuel_bound items \<le> n"
  shows "scan_object n (tl (join '',\<newline>  '' (map dump_entry items)) @ ''\<newline>}'' @ rest) ps =
           Scanned (JObject (ps @ map entry_json items)) rest"
  using assms
proof (induction items arbitrary: n ps)
  case Nil
  then show ?case by simp
next
  case (Cons kv items)
  define m where "m = n - 1"
  have n: "n = Suc m" using Cons.prems(2) by (simp add: m_def fuel_bound_def)
  have val: "length (snd kv) + 5 \<le> m"
    using Cons.prems(2) by (simp add: m_def fuel_bound_def)
  let ?v = "JArray (map to_json_turn (snd kv))"
  have key: "scanstring (concat (map esc_char (fst kv)) @ DQ # '': '' @ dump_turns (snd kv) @ x)
               = Scanned (fst kv) ('': '' @ dump_turns (snd kv) @ x)" for x
    by (rule scanstring_escaped)
  have colon: "skip_ws ('': '' @ dump_turns (snd kv) @ x) = CHR '':'' # '' '' @ dump_turns (snd kv) @ x" for x
    by (simp add: is_ws_def)
  have v: "scan_once m (skip_ws ('' '' @ dump_turns (snd kv) @ x)) = Scanned ?v x" for x
  proof -
    have "skip_ws ('' '' @ dump_turns (snd kv) @ x) = dump_turns (snd kv) @ x"
      by (rule skip_ws_to) (use dump_turns_starts [of "snd kv" x] in \<open>simp_all add: is_ws_def\<close>)
    then show ?thesis using scan_once_turns [OF val] by simp
  qed
  show ?case
  proof (cases "items = []")
    case True
    have "scan_object (Suc m)
            (concat (map esc_char (fst kv)) @ DQ # '': '' @ dump_turns (snd kv) @ ''\<newline>}'' @ rest) ps
          = Scanned (JObject (ps @ [(fst kv, ?v)])) rest"
      by (rule scan_object_last [OF key colon v]) (simp add: is_ws_def)
    then show ?thesis by (simp add: True n tl_dump_entry entry_json_def)
  next
    case False
    have fuel: "fuel_bound items \<le> m"
      using Cons.prems(2) by (simp add: m_def fuel_bound_def)
    let ?more = "join '',\<newline>  '' (map dump_entry items)"
    let ?tail = "''\<newline>}'' @ rest"
    have more: "?more @ ?tail = DQ # tl ?more @ ?tail"
      by (rule entries_start [OF False])
    have comma: "skip_ws ('','' @ ''\<newline>  '' @ ?more @ ?tail) = CHR '','' # ''\<newline>  '' @ ?more @ ?tail"
      by (simp add: is_ws_def)
    have next_key: "skip_ws (''\<newline>  '' @ ?more @ ?tail) = DQ # tl ?more @ ?tail"
    proof -
      have ne: "?more @ ?tail \<noteq> []" and h: "hd (?more @ ?tail) = DQ"
        using more by (metis list.distinct(1), metis list.sel(1))
      have "skip_ws (''\<newline>  '' @ ?more @ ?tail) = ?more @ ?tail"
        by (rule skip_ws_to) (use ne h in \<open>simp_all add: is_ws_def\<close>)
      also have "\<dots> = DQ # tl ?more @ ?tail" by (rule more)
      finally show ?thesis .
    qed
    have "scan_object (Suc m)
            (concat (map esc_char (fst kv)) @ DQ # '': '' @ dump_turns (snd kv)
               @ '','' @ ''\<newline>  '' @ ?more @ ?tail) ps
          = scan_object m (tl ?more @ ?tail) (ps @ [(fst kv, ?v)])"
      by (rule scan_object_next [OF key colon v comma next_key])
    also have "\<dots> = Scanned (JObject ((ps @ [(fst kv, ?v)]) @ map entry_json items)) rest"
      by (rule Cons.IH [OF False fuel])
    finally show ?thesis
      by (simp add: False n join_Cons tl_dump_entry_append tl_dump_entry)
         (simp add: entry_json_def)
  qed
qed

lemma scan_once_store:
  assumes "fuel_bound items \<le> n"
  shows "scan_once (Suc n) (dump_store items @ rest) = Scanned (JObject (map entry_json items)) rest"
proof (cases "items = []")
  case True
  then show ?thesis by (simp add: dump_store_def scan_once_brace is_ws_def)
next
  case False
  let ?more = "join '',\<newline>  '' (map dump_entry items)"
  let ?tail = "''\<newline>}'' @ rest"
  have more: "?more @ ?tail = DQ # tl ?more @ ?tail"
    by (rule entries_start [OF False])
  have first_key: "skip_ws (''\<newline>  '' @ ?more @ ?tail) = DQ # tl ?more @ ?tail"
  proof -
    have ne: "?more @ ?tail \<noteq> []" and h: "hd (?more @ ?tail) = DQ"
      using more by (metis list.distinct(1), metis list.sel(1))
    have "skip_ws (''\<newline>  '' @ ?more @ ?tail) = ?more @ ?tail"
      by (rule skip_ws_to) (use ne h in \<open>simp_all add: is_ws_def\<close>)
    also have "\<dots> = DQ # tl ?more @ ?tail" by (rule more)
    finally show ?thesis .
  qed
  have "scan_once (Suc n) (CHR ''{'' # ''\<newline>  '' @ ?more @ ?tail) = scan_object n (tl ?more @ ?tail) []"
    by (rule scan_once_object [OF first_key])
  also have "\<dots> = Scanned (JObject ([] @ map entry_json items)) rest"
    by (rule scan_object_entries [OF False assms])
  finally show ?thesis by (simp add: dump_store_def False)
qed

lemma length_join: "sum_list (map length xs) \<le> length (join sep xs)"
  by (induction sep xs rule: join.induct) simp_all

lemma sum_list_le_join:
  assumes "\<And>x. x \<in> set xs \<Longrightarrow> g x \<le> length (f x)"
  shows "sum_list (map g xs) \<le> length (join sep (map f xs))"
proof -
  have "sum_list (map g xs) \<le> sum_list (map (\<lambda>x. length (f x)) xs)"
    using assms by (intro sum_list_mono) simp
  also have "\<dots> = sum_list (map length (map f xs))" by (simp add: comp_def)
  also have "\<dots> \<le> length (join sep (map f xs))" by (rule length_join)
  finally show ?thesis .
qed

lemma length_dump_turns: "length ts \<le> length (dump_turns ts)"
proof -
  have "sum_list (map (\<lambda>t. 1) ts) \<le> length (join '',\<newline>    '' (map dump_turn ts))"
    by (rule sum_list_le_join) (simp add: dump_turn_def)
  then show ?thesis by (simp add: dump_turns_def sum_list_triv)
qed

lemma length_dump_entry: "1 + length (snd kv) \<le> length (dump_entry kv)"
  using length_dump_turns [of "snd kv"] by (simp add: dump_entry_def dump_str_def)

lemma fuel_bound_le:
  assumes "items \<noteq> []"
  shows "fuel_bound items \<le> length (dump_store items)"
proof -
  have "sum_list (map (\<lambda>kv. 1 + length (snd kv)) items)
          \<le> length (join '',\<newline>  '' (map dump_entry items))"
    by (rule sum_list_le_join) (rule length_dump_entry)
  moreover have "sum_list (map (\<lambda>kv. 1 + length (snd kv)) items)
          = length items + sum_list (map (\<lambda>kv. length (snd kv)) items)"
    by (induction items) simp_all
  ultimately show ?thesis using assms by (simp add: fuel_bound_def dump_store_def)
qed

lemma json_loads_dump_store:
  "json_loads (dump_store items) = Decoded (JObject (map entry_json items))"
proof -
  have start: "skip_ws (dump_store items) = dump_store items"
    by (rule skip_ws_id) (simp_all add: dump_store_def is_ws_def)
  have "scan_once (Suc (length (dump_store items))) (dump_store items @ [])
          = Scanned (JObject (map entry_json items)) []"
  proof (cases "items = []")
    case True
    then show ?thesis by (simp add: dump_store_def scan_once_brace is_ws_def)
  next
    case False
    show ?thesis by (rule scan_once_store) (rule fuel_bound_le [OF False])
  qed
  then show ?thesis by (simp add: json_loads_def start)
qed

lemma as_turn_to_json: "as_turn (to_json_turn t) = Some t"
  by (simp add: as_turn_def to_json_turn_def)

lemma those_all_Some:
  assumes "\<And>x. x \<in> set xs \<Longrightarrow> f x = Some (g x)"
  shows "those (map f xs) = Some (map g xs)"
  using assms by (induction xs) simp_all

lemma as_turns_to_json: "as_turns (JArray (map to_json_turn ts)) = Some ts"
proof -
  have "those (map (as_turn \<circ> to_json_turn) ts) = Some (map (\<lambda>t. t) ts)"
    by (rule those_all_Some) (simp add: as_turn_to_json)
  then show ?thesis by (simp add: as_turns_def)
qed

lemma as_conversations_store:
  "as_conversations (JObject (map entry_json items)) = Some (map_of (rev items))"
proof -
  have "those (map ((\<lambda>p. map_option (Pair (fst p)) (as_turns (snd p))) \<circ> entry_json) items)
          = Some (map (\<lambda>kv. kv) items)"
    by (rule those_all_Some) (simp add: entry_json_def as_turns_to_json)
  then show ?thesis by (simp add: as_conversations_def)
qed

lemma map_of_rev_distinct: "distinct (map fst xs) \<Longrightarrow> map_of (rev xs) = map_of xs"
  by (induction xs) (auto simp add: map_add_def fun_eq_iff split: option.splits dest: map_of_SomeD intro: rev_image_eqI)

lemma load_dump_store:
  assumes "distinct (map fst items)"
  shows "load_CONVERSATIONS (Some (dump_store items)) = Loaded (map_of items)"
  using assms
  by (simp add: load_CONVERSATIONS_def json_loads_dump_store as_conversations_store map_of_rev_distinct)

lemma map_fst_items_of: "map fst (items_of ks m) = filter (\<lambda>k. m k \<noteq> None) ks"
  by (induction ks) (auto simp add: items_of_def split: option.splits)

lemma map_of_items_of:
  assumes "dom m \<subseteq> set ks"
  shows "map_of (items_of ks m) = m"
proof
  fix k
  have *: "map_of (items_of ks m) k = (if k \<in> set ks then m k else None)" for ks
    by (induction ks) (auto simp add: items_of_def split: option.splits)
  show "map_of (items_of ks m) k = m k"
  proof (cases "k \<in> set ks")
    case True
    then show ?thesis by (simp add: * )
  next
    case False
    with assms have "m k = None" by (meson domIff subsetD)
    with False show ?thesis by (simp add: * )
  qed
qed

lemma demo_dump: "json_dump_dict [''s1''] demo_store = demo_json"
  by code_simp

lemma demo_truncated: "json_loads (take 10 demo_json) = JSONDecodeError"
  by code_simp

lemma demo_parse:
  "json_loads demo_json =
     Decoded (JObject [(''s1'', JArray [JObject [(''role'', JString ''user''),
                                                (''content'', JString ''hi'')]])])"
  by code_simp

subsection \<open>The worked example, evaluated\<close>

lemma demo_asked: "asked demo_query = ''What is GST?''"
  by code_simp

lemma demo_retrieved: "retrieved demo_env demo_query = [gst_hit, bare_hit]"
  by (simp add: retrieved_def demo_env_def)

lemma demo_evidence: "evidence_block [gst_hit, bare_hit] = demo_block"
  by code_simp

lemma demo_citations_of: "citations_of [gst_hit, bare_hit] = demo_citations"
  by code_simp

lemma demo_session: "session_of demo_env demo_query = ''u-1''"
  by (simp add: session_of_def demo_env_def demo_query_def)

lemma demo_opened: "opened empty_world ''u-1'' = [system_turn]"
  by (simp add: opened_def empty_world_def)

lemma demo_llm: "llm_invoke demo_env ms = Inr ''A tax.''"
  by (simp add: demo_env_def)

lemma demo_response:
  "fst (chat_endpoint demo_env demo_query empty_world) =
     Inr \<lparr>resp_answer = ''A tax.'', resp_session_id = Some ''u-1'',
          resp_citations = Some demo_citations\<rparr>"
  by (simp add: success_iff demo_asked demo_retrieved demo_session demo_citations_of demo_llm)

lemma demo_prompted:
  "prompted demo_env demo_query empty_world = butlast demo_transcript"
  by (simp add: prompted_def demo_session demo_opened demo_retrieved demo_evidence demo_asked
      evidence_turns_def user_turn_def system_turn_def demo_transcript_def)

lemma demo_after:
  "CONVERSATIONS (snd (chat_endpoint demo_env demo_query empty_world)) ''u-1'' = Some demo_transcript"
  by (simp add: CONVERSATIONS_after demo_asked demo_session demo_prompted answer_turns_def
      demo_llm answer_turn_def demo_transcript_def)

lemma demo_nonblank: "asked demo_query \<noteq> []"
  by (simp add: demo_asked)

lemma demo_retrieve: "retrieve demo_env q k = Inr (Some [gst_hit, bare_hit])"
  by (simp add: demo_env_def)

lemma demo_writes: "file_write demo_env = WriteOk"
  by (simp add: demo_env_def)

lemma llm_down_retrieved: "retrieved llm_down_env demo_query = [gst_hit, bare_hit]"
  by (simp add: retrieved_def llm_down_env_def demo_env_def)

lemma llm_down_session: "session_of llm_down_env demo_query = ''u-1''"
  by (simp add: session_of_def llm_down_env_def demo_env_def demo_query_def)

lemma llm_down_prompted: "prompted llm_down_env demo_query empty_world = demo_pending"
  by (simp add: prompted_def llm_down_session demo_opened llm_down_retrieved demo_evidence
      demo_asked evidence_turns_def user_turn_def system_turn_def demo_pending_def)

lemma llm_down_fails: "llm_invoke llm_down_env ms = Inl ''timeout''"
  by (simp add: llm_down_env_def)

lemma retriever_down_raises: "retrieve retriever_down_env q k = Inl ''index missing''"
  by (simp add: retriever_down_env_def)

lemma retriever_down_session: "session_of retriever_down_env demo_query = ''u-1''"
  by (simp add: session_of_def retriever_down_env_def demo_env_def demo_query_def)

lemma retriever_down_llm: "llm_invoke retriever_down_env ms = Inr ''A tax.''"
  by (simp add: retriever_down_env_def demo_env_def)

lemma followup_asked: "asked followup_query = ''And VAT?''"
  by code_simp

lemma followup_response:
  "fst (chat_endpoint demo_env followup_query w) =
     Inr \<lparr>resp_answer = ''A tax.'', resp_session_id = Some ''u-1'',
          resp_citations = Some demo_citations\<rparr>"
proof -
  have r: "retrieved demo_env followup_query = [gst_hit, bare_hit]"
    by (simp add: retrieved_def demo_env_def)
  have s: "session_of demo_env followup_query = ''u-1''"
    by (simp add: session_of_def followup_query_def)
  show ?thesis
    by (simp add: success_iff followup_asked r s demo_citations_of demo_llm)
qed

lemma citations_of_length: "length (citations_of hits) = length hits"
  by (simp add: citations_of_def)

lemma citations_of_nth:
  "i < length hits \<Longrightarrow> citations_of hits ! i = citation_at (i + 1) (hits ! i)"
  by (simp add: citations_of_def)

subsection \<open>The order of the turns of a successful exchange\<close>

text \<open>
  Claim C1. When the question is not blank and the language model answers the
  rendered transcript, the handler returns the response with that answer, and
  the transcript of the session is the transcript the session had once resolved
  or created, followed by the evidence turn with role \<open>assistant\<close> exactly when
  at least one snippet was retrieved, then the \<open>user\<close> turn with the trimmed
  question, then the \<open>assistant\<close> turn with the answer, in this order: the user
  turn never precedes the evidence turn.
\<close>

theorem successful_exchange_order:
  assumes "asked query \<noteq> []"
    and "llm_invoke e (to_langchain_messages (prompted e query w)) = Inr answer"
  shows "fst (chat_endpoint e query w) =
           Inr \<lparr>resp_answer = answer, resp_session_id = Some (session_of e query),
                resp_citations = Some (citations_of (retrieved e query))\<rparr> \<and>
         CONVERSATIONS (snd (chat_endpoint e query w)) (session_of e query) =
           Some (opened w (session_of e query)
                 @ (if retrieved e query = [] then []
                    else [\<lparr>role = ''assistant'', content = evidence_block (retrieved e query)\<rparr>])
                 @ [\<lparr>role = ''user'', content = asked query\<rparr>,
                    \<lparr>role = ''assistant'', content = answer\<rparr>])"
proof -
  have "fst (chat_endpoint e query w) =
           Inr \<lparr>resp_answer = answer, resp_session_id = Some (session_of e query),
                resp_citations = Some (citations_of (retrieved e query))\<rparr>"
    using assms by (simp add: chat_endpoint_nonblank)
  moreover have "CONVERSATIONS (snd (chat_endpoint e query w)) (session_of e query) =
           Some (opened w (session_of e query)
                 @ (if retrieved e query = [] then []
                    else [\<lparr>role = ''assistant'', content = evidence_block (retrieved e query)\<rparr>])
                 @ [\<lparr>role = ''user'', content = asked query\<rparr>,
                    \<lparr>role = ''assistant'', content = answer\<rparr>])"
    using assms
    by (simp add: CONVERSATIONS_after answer_turns_def prompted_def evidence_turns_def
        user_turn_def answer_turn_def)
  ultimately show ?thesis by simp
qed

theorem successful_exchange_order_witness:
  "asked demo_query \<noteq> [] \<and>
   llm_invoke demo_env (to_langchain_messages (prompted demo_env demo_query empty_world))
     = Inr ''A tax.'' \<and>
   fst (chat_endpoint demo_env demo_query empty_world) =
     Inr \<lparr>resp_answer = ''A tax.'', resp_session_id = Some ''u-1'',
          resp_citations = Some demo_citations\<rparr> \<and>
   CONVERSATIONS (snd (chat_endpoint demo_env demo_query empty_world)) ''u-1'' =
     Some [\<lparr>role = ''system'', content = SYSTEM_PROMPT\<rparr>,
           \<lparr>role = ''assistant'', content = demo_block\<rparr>,
           \<lparr>role = ''user'', content = ''What is GST?''\<rparr>,
           \<lparr>role = ''assistant'', content = ''A tax.''\<rparr>]"
  using successful_exchange_order [OF demo_nonblank demo_llm, of empty_world]
  by (simp add: demo_nonblank demo_llm demo_retrieved demo_asked demo_evidence demo_session
      demo_opened demo_citations_of system_turn_def)

subsection \<open>The system turn of every session\<close>

text \<open>
  Claim C2. Start from a store without sessions and run any sequence of
  exchanges. Every transcript then in the store is not empty, its first turn is
  the \<open>system\<close> turn with the fixed preamble, and it holds exactly one
  \<open>system\<close> turn; whatever exchanges follow, the transcript only grows at its
  end, by turns that are not \<open>system\<close> turns, so the preamble is neither
  duplicated nor removed.
\<close>

theorem system_turn_invariant:
  assumes "CONVERSATIONS w0 = Map.empty"
    and "CONVERSATIONS (serve w0 reqs) sid = Some ts"
  shows "ts \<noteq> [] \<and> hd ts = system_turn \<and> system_count ts = 1 \<and>
         (\<forall>later. \<exists>more. CONVERSATIONS (serve w0 (reqs @ later)) sid = Some (ts @ more)
                          \<and> system_count more = 0)"
proof -
  have "\<exists>more. ts = system_turn # more \<and> system_count more = 0"
  proof (rule serve_invariant [of w0 reqs sid ts])
    show "CONVERSATIONS (serve w0 reqs) sid = Some ts" by (rule assms(2))
  next
    fix sid' ts'
    assume "CONVERSATIONS w0 sid' = Some ts'"
    with assms(1) show "\<exists>more. ts' = system_turn # more \<and> system_count more = 0" by simp
  qed
  then obtain more where ts: "ts = system_turn # more" and c: "system_count more = 0" by blast
  have first: "ts \<noteq> [] \<and> hd ts = system_turn \<and> system_count ts = 1"
    using ts c by (simp add: system_turn_def)
  have later: "\<exists>more. CONVERSATIONS (serve w0 (reqs @ later)) sid = Some (ts @ more)
                 \<and> system_count more = 0" for later
    using serve_extends [OF assms(2), of later] by (simp add: serve_append)
  from first later show ?thesis by blast
qed

theorem system_turn_invariant_witness:
  "CONVERSATIONS empty_world = Map.empty \<and>
   CONVERSATIONS (serve empty_world [(demo_env, demo_query)]) ''u-1'' = Some demo_transcript \<and>
   demo_transcript \<noteq> [] \<and> hd demo_transcript = system_turn \<and> system_count demo_transcript = 1 \<and>
   (\<forall>later. \<exists>more.
      CONVERSATIONS (serve empty_world ([(demo_env, demo_query)] @ later)) ''u-1''
        = Some (demo_transcript @ more) \<and> system_count more = 0)"
proof -
  have e: "CONVERSATIONS empty_world = Map.empty" by (simp add: empty_world_def)
  have s: "CONVERSATIONS (serve empty_world [(demo_env, demo_query)]) ''u-1'' = Some demo_transcript"
    by (simp add: demo_after)
  from system_turn_invariant [OF e s] e s show ?thesis by simp
qed

subsection \<open>A failing language model\<close>

text \<open>
  Claim C3. When the question is not blank and the call of the language model
  on the rendered transcript raises, the handler raises the \<open>HTTPException\<close>
  with status 500 and the detail \<open>LLM error: ...\<close>; the transcript of the session
  ends with the evidence turn (if any snippet was retrieved) and the user turn
  of this exchange, and no answer turn follows them.
\<close>

theorem inference_failure_keeps_appended_turns:
  assumes "asked query \<noteq> []"
    and "llm_invoke e (to_langchain_messages (prompted e query w)) = Inl err"
  shows "fst (chat_endpoint e query w) = Inl (HTTPException 500 (''LLM error: '' @ err)) \<and>
         CONVERSATIONS (snd (chat_endpoint e query w)) (session_of e query) =
           Some (opened w (session_of e query)
                 @ (if retrieved e query = [] then []
                    else [\<lparr>role = ''assistant'', content = evidence_block (retrieved e query)\<rparr>])
                 @ [\<lparr>role = ''user'', content = asked query\<rparr>])"
  using assms
  by (simp add: chat_endpoint_nonblank prompted_def evidence_turns_def user_turn_def)

theorem inference_failure_keeps_appended_turns_witness:
  "asked demo_query \<noteq> [] \<and>
   llm_invoke llm_down_env (to_langchain_messages (prompted llm_down_env demo_query empty_world))
     = Inl ''timeout'' \<and>
   fst (chat_endpoint llm_down_env demo_query empty_world)
     = Inl (HTTPException 500 ''LLM error: timeout'') \<and>
   CONVERSATIONS (snd (chat_endpoint llm_down_env demo_query empty_world)) ''u-1''
     = Some [\<lparr>role = ''system'', content = SYSTEM_PROMPT\<rparr>,
             \<lparr>role = ''assistant'', content = demo_block\<rparr>,
             \<lparr>role = ''user'', content = ''What is GST?''\<rparr>]"
  using inference_failure_keeps_appended_turns [OF demo_nonblank llm_down_fails]
  by (simp add: demo_nonblank llm_down_fails llm_down_session llm_down_retrieved demo_opened
      demo_evidence demo_asked system_turn_def)

subsection \<open>A blank question\<close>

text \<open>
  Claim C4. A request whose question is absent, empty or made of whitespace
  only is rejected with the \<open>HTTPException\<close> of status 400 and detail
  \<open>Empty question\<close>, and the state is the one before the request: no session is
  created, no turn is appended, the file is untouched and neither gateway is
  called.
\<close>

theorem blank_question_rejected:
  assumes "blank query"
  shows "chat_endpoint e query w = (Inl (HTTPException 400 ''Empty question''), w)"
  using assms by (simp add: blank_iff chat_endpoint_blank)

theorem blank_question_rejected_witness:
  "blank blank_query \<and>
   chat_endpoint demo_env blank_query empty_world =
     (Inl (HTTPException 400 ''Empty question''), empty_world)"
proof -
  have b: "blank blank_query" by code_simp
  from blank_question_rejected [OF b] b show ?thesis by simp
qed

subsection \<open>A retriever that fails or finds nothing\<close>

text \<open>
  Claim C5. When the question is not blank and the retriever raises or returns
  the empty list, the exchange goes on to the language model with the transcript
  of the session followed by the user turn alone: no evidence turn is appended,
  and a response carries the empty list of citations. The result is the same
  expression in both cases: it does not mention what the retriever did.
\<close>

theorem retrieval_failure_is_no_evidence:
  assumes "asked query \<noteq> []"
    and "retrieve e (asked query) 5 = Inl err \<or> retrieve e (asked query) 5 = Inr (Some [])"
  shows "chat_endpoint e query w =
     (let sid = session_of e query;
          ts = opened w sid @ [\<lparr>role = ''user'', content = asked query\<rparr>];
          cs = calls w @ [Retrieve (asked query) 5, Invoke (to_langchain_messages ts)]
      in case llm_invoke e (to_langchain_messages ts) of
           Inl failure \<Rightarrow>
             (Inl (HTTPException 500 (''LLM error: '' @ failure)),
              \<lparr>CONVERSATIONS = (CONVERSATIONS w)(sid \<mapsto> ts),
               sessions_file = sessions_file w, calls = cs\<rparr>)
         | Inr answer \<Rightarrow>
             (Inr \<lparr>resp_answer = answer, resp_session_id = Some sid, resp_citations = Some []\<rparr>,
              save_sessions e
                \<lparr>CONVERSATIONS =
                   (CONVERSATIONS w)(sid \<mapsto> ts @ [\<lparr>role = ''assistant'', content = answer\<rparr>]),
                 sessions_file = sessions_file w, calls = cs\<rparr>))"
proof -
  from assms(2) have r: "retrieved e query = []" by (auto simp add: retrieved_def)
  have p: "prompted e query w = opened w (session_of e query) @ [\<lparr>role = ''user'', content = asked query\<rparr>]"
    by (simp add: prompted_def r evidence_turns_def user_turn_def)
  show ?thesis
    by (simp add: chat_endpoint_nonblank [OF assms(1)] p r exchange_calls_def citations_of_def
        answer_turn_def Let_def split: sum.splits)
qed

theorem retrieval_failure_is_no_evidence_witness:
  "asked demo_query \<noteq> [] \<and>
   retrieve retriever_down_env (asked demo_query) 5 = Inl ''index missing'' \<and>
   fst (chat_endpoint retriever_down_env demo_query empty_world) =
     Inr \<lparr>resp_answer = ''A tax.'', resp_session_id = Some ''u-1'', resp_citations = Some []\<rparr> \<and>
   CONVERSATIONS (snd (chat_endpoint retriever_down_env demo_query empty_world)) ''u-1'' =
     Some [\<lparr>role = ''system'', content = SYSTEM_PROMPT\<rparr>,
           \<lparr>role = ''user'', content = ''What is GST?''\<rparr>,
           \<lparr>role = ''assistant'', content = ''A tax.''\<rparr>] \<and>
   calls (snd (chat_endpoint retriever_down_env demo_query empty_world)) =
     [Retrieve ''What is GST?'' 5,
      Invoke [SystemMessage SYSTEM_PROMPT, HumanMessage ''What is GST?'']]"
proof -
  have r: "retrieve retriever_down_env (asked demo_query) 5 = Inl ''index missing'' \<or>
           retrieve retriever_down_env (asked demo_query) 5 = Inr (Some [])"
    by (simp add: retriever_down_raises)
  have c: "calls empty_world = []" by (simp add: empty_world_def)
  show ?thesis
    using retrieval_failure_is_no_evidence [OF demo_nonblank r, of empty_world]
    by (simp add: demo_nonblank retriever_down_raises retriever_down_session retriever_down_llm
        demo_opened demo_asked system_turn_def c Let_def)
qed

subsection \<open>The format of the evidence block\<close>

text \<open>
  Claim C6. When the question is not blank and the retriever returns a list of
  snippets that is not empty, the evidence turn appended to the transcript has
  the role \<open>assistant\<close> and the content \<open>CONTEXT:\<close>, a newline, and the formatted
  snippets in input order joined by a blank line; the snippet at the 1-based
  position \<open>i\<close> is formatted as \<open>[i] source#chunkchunk_id\<close>, a newline, and its
  trimmed text, where a missing source is \<open>knowledge_base\<close>, a missing chunk
  identifier is the position \<open>i\<close> and a missing text is empty.
\<close>

theorem evidence_block_format:
  assumes "asked query \<noteq> []"
    and "retrieve e (asked query) 5 = Inr (Some hits)"
    and "hits \<noteq> []"
  shows "CONVERSATIONS (snd (chat_endpoint e query w)) (session_of e query) =
     Some (opened w (session_of e query)
           @ \<lparr>role = ''assistant'',
              content =
                ''CONTEXT:\<newline>'' @
                join ''\<newline>\<newline>''
                  (map (\<lambda>i. ''['' @ str_nat (i + 1) @ ''] '' @ snippet_source (hits ! i)
                              @ ''#chunk'' @ snippet_chunk_id (i + 1) (hits ! i)
                              @ ''\<newline>'' @ snippet_text (hits ! i))
                     [0..<length hits])\<rparr>
           # \<lparr>role = ''user'', content = asked query\<rparr>
           # answer_turns e query w)"
proof -
  from assms(2) have r: "retrieved e query = hits" by (simp add: retrieved_def)
  show ?thesis
    using assms(1,3)
    by (simp add: CONVERSATIONS_after prompted_def r evidence_turns_def evidence_block_def
        format_snippet_def user_turn_def)
qed

theorem evidence_block_format_witness:
  "asked demo_query \<noteq> [] \<and>
   retrieve demo_env (asked demo_query) 5 = Inr (Some [gst_hit, bare_hit]) \<and>
   [gst_hit, bare_hit] \<noteq> [] \<and>
   CONVERSATIONS (snd (chat_endpoint demo_env demo_query empty_world)) ''u-1'' =
     Some [\<lparr>role = ''system'', content = SYSTEM_PROMPT\<rparr>,
           \<lparr>role = ''assistant'',
            content =
              ''CONTEXT:\<newline>'' @
              ''[1] gst_act.txt#chunk7\<newline>GST is a tax.\<newline>\<newline>'' @
              ''[2] knowledge_base#chunk2\<newline>Rates vary.''\<rparr>,
           \<lparr>role = ''user'', content = ''What is GST?''\<rparr>,
           \<lparr>role = ''assistant'', content = ''A tax.''\<rparr>]"
proof -
  have n: "[gst_hit, bare_hit] \<noteq> []" by simp
  have a: "answer_turns demo_env demo_query empty_world = [\<lparr>role = ''assistant'', content = ''A tax.''\<rparr>]"
    by (simp add: answer_turns_def demo_llm answer_turn_def)
  have b: "''CONTEXT:\<newline>'' @
           join ''\<newline>\<newline>''
             (map (\<lambda>i. ''['' @ str_nat (i + 1) @ ''] '' @ snippet_source ([gst_hit, bare_hit] ! i)
                         @ ''#chunk'' @ snippet_chunk_id (i + 1) ([gst_hit, bare_hit] ! i)
                         @ ''\<newline>'' @ snippet_text ([gst_hit, bare_hit] ! i))
                [0..<length [gst_hit, bare_hit]]) = demo_block"
    using demo_evidence by (simp only: evidence_block_def format_snippet_def)
  show ?thesis
    using evidence_block_format [OF demo_nonblank demo_retrieve n, of empty_world]
    by (simp only: b a demo_session demo_opened) (simp add: demo_nonblank demo_retrieve demo_asked system_turn_def demo_block_def)
qed

subsection \<open>The citations of a response\<close>

text \<open>
  Claim C7. When the question is not blank, the retriever returns the list
  \<open>hits\<close> and the language model answers, the handler returns a response whose
  citations are as many as the snippets and in their order: the citation at
  position \<open>i\<close> (from 0) has as its \<open>id\<close> the decimal string of \<open>i + 1\<close>, and the
  default-filled source and chunk identifier of the snippet at that position.
\<close>

theorem citations_follow_snippets:
  assumes "asked query \<noteq> []"
    and "llm_invoke e (to_langchain_messages (prompted e query w)) = Inr answer"
    and "retrieve e (asked query) 5 = Inr (Some hits)"
  shows "\<exists>cs. fst (chat_endpoint e query w) =
                Inr \<lparr>resp_answer = answer, resp_session_id = Some (session_of e query),
                     resp_citations = Some cs\<rparr> \<and>
              length cs = length hits \<and>
              (\<forall>i<length hits.
                 cit_id (cs ! i) = str_nat (i + 1) \<and>
                 decimal_value (cit_id (cs ! i)) = i + 1 \<and>
                 cit_source (cs ! i) = snippet_source (hits ! i) \<and>
                 cit_chunk_id (cs ! i) = snippet_chunk_id (i + 1) (hits ! i))"
proof -
  from assms(3) have r: "retrieved e query = hits" by (simp add: retrieved_def)
  have c: "fst (chat_endpoint e query w) =
             Inr \<lparr>resp_answer = answer, resp_session_id = Some (session_of e query),
                  resp_citations = Some (citations_of hits)\<rparr>"
    using assms(1,2) by (simp add: chat_endpoint_nonblank r)
  have "cit_id (citations_of hits ! i) = str_nat (i + 1) \<and>
        decimal_value (cit_id (citations_of hits ! i)) = i + 1 \<and>
        cit_source (citations_of hits ! i) = snippet_source (hits ! i) \<and>
        cit_chunk_id (citations_of hits ! i) = snippet_chunk_id (i + 1) (hits ! i)"
    if "i < length hits" for i
    using that by (simp add: citations_of_nth citation_at_def decimal_value_str_nat)
  with c citations_of_length show ?thesis by blast
qed

theorem citations_follow_snippets_witness:
  "asked demo_query \<noteq> [] \<and>
   llm_invoke demo_env (to_langchain_messages (prompted demo_env demo_query empty_world))
     = Inr ''A tax.'' \<and>
   retrieve demo_env (asked demo_query) 5 = Inr (Some [gst_hit, bare_hit]) \<and>
   (\<exists>cs. fst (chat_endpoint demo_env demo_query empty_world) =
           Inr \<lparr>resp_answer = ''A tax.'', resp_session_id = Some ''u-1'',
                resp_citations = Some cs\<rparr> \<and>
         length cs = 2 \<and>
         cit_id (cs ! 0) = ''1'' \<and> cit_id (cs ! 1) = ''2'' \<and>
         cit_source (cs ! 0) = ''gst_act.txt'' \<and> cit_source (cs ! 1) = ''knowledge_base'' \<and>
         cit_chunk_id (cs ! 0) = ''7'' \<and> cit_chunk_id (cs ! 1) = ''2'')"
proof -
  from citations_follow_snippets [OF demo_nonblank demo_llm demo_retrieve, of empty_world]
  obtain cs where
    r: "fst (chat_endpoint demo_env demo_query empty_world) =
          Inr \<lparr>resp_answer = ''A tax.'', resp_session_id = Some ''u-1'',
               resp_citations = Some cs\<rparr>"
    by (auto simp add: demo_session)
  with demo_response have cs: "cs = demo_citations" by simp
  from r cs demo_nonblank demo_llm demo_retrieve show ?thesis
    by (simp add: demo_citations_def)
qed

subsection \<open>Saving and loading the sessions\<close>

text \<open>
  Claim C8, as amended. When \<open>save_sessions\<close> writes the file in full, with
  \<open>json.dump\<close> writing the sessions in the insertion order \<open>ks\<close> of the
  dictionary, then loading the sessions from the file that \<open>save_sessions\<close>
  left yields the store as it was in memory at the time of the save.
\<close>

theorem save_then_load_roundtrip:
  assumes "file_write e = WriteOk"
    and "json_dump e = json_dump_dict ks"
    and "distinct ks"
    and "dom (CONVERSATIONS w) \<subseteq> set ks"
  shows "load_CONVERSATIONS (sessions_file (save_sessions e w)) = Loaded (CONVERSATIONS w)"
proof -
  let ?items = "items_of ks (CONVERSATIONS w)"
  have written: "sessions_file (save_sessions e w) = Some (dump_store ?items)"
    using assms(1,2) by (simp add: save_sessions_def json_dump_dict_def)
  have "distinct (map fst ?items)"
    using assms(3) by (simp add: map_fst_items_of)
  then have "load_CONVERSATIONS (Some (dump_store ?items)) = Loaded (map_of ?items)"
    by (rule load_dump_store)
  also have "map_of ?items = CONVERSATIONS w"
    using assms(4) by (rule map_of_items_of)
  finally show ?thesis by (simp add: written)
qed

theorem save_then_load_roundtrip_witness:
  "file_write json_env = WriteOk \<and>
   json_dump json_env = json_dump_dict [''s1''] \<and>
   distinct [''s1''] \<and>
   dom (CONVERSATIONS stored_world) \<subseteq> set [''s1''] \<and>
   sessions_file (save_sessions json_env stored_world) = Some demo_json \<and>
   load_CONVERSATIONS (sessions_file (save_sessions json_env stored_world)) = Loaded demo_store"
proof -
  have w: "file_write json_env = WriteOk" by (simp add: json_env_def demo_env_def)
  have j: "json_dump json_env = json_dump_dict [''s1'']" by (simp add: json_env_def)
  have d: "distinct [''s1'']" by simp
  have k: "dom (CONVERSATIONS stored_world) \<subseteq> set [''s1'']"
    by (simp add: stored_world_def demo_store_def)
  have c: "CONVERSATIONS stored_world = demo_store" by (simp add: stored_world_def)
  have f: "sessions_file (save_sessions json_env stored_world) = Some demo_json"
    by (simp add: save_sessions_def w j c demo_dump)
  from save_then_load_roundtrip [OF w j d k] w j d k f show ?thesis by (simp add: c)
qed

text \<open>
  The claim as stated, for every persist, does not hold: \<open>save_sessions\<close> catches
  the exception of a failed write. When the write of the example store fails
  after ten characters, the file holds a text that \<open>json.load\<close> rejects, and the
  reload yields the empty store.
\<close>

theorem save_then_load_counterexample:
  "load_CONVERSATIONS (sessions_file (save_sessions disk_full_env stored_world))
     \<noteq> Loaded (CONVERSATIONS stored_world)"
proof -
  have w: "file_write disk_full_env = DumpFails 10" by (simp add: disk_full_env_def)
  have j: "json_dump disk_full_env = json_dump_dict [''s1'']"
    by (simp add: disk_full_env_def json_env_def)
  have c: "CONVERSATIONS stored_world = demo_store" by (simp add: stored_world_def)
  have f: "sessions_file (save_sessions disk_full_env stored_world) = Some (take 10 demo_json)"
    by (simp add: save_sessions_def w j c demo_dump)
  have l: "load_CONVERSATIONS (Some (take 10 demo_json)) = Loaded Map.empty"
    by (simp add: load_CONVERSATIONS_def demo_truncated)
  have "demo_store ''s1'' \<noteq> Map.empty ''s1''" by (simp add: demo_store_def)
  then have "Map.empty \<noteq> demo_store" by metis
  then show ?thesis by (simp add: f l c)
qed

subsection \<open>The question is used trimmed\<close>

text \<open>
  Claim C9. When the question is not blank after trimming, the raw question is
  the trimmed one between two runs of whitespace, the trimmed one neither starts
  nor ends with whitespace, the user turn appended to the transcript holds the
  trimmed question, and the retriever is called with the trimmed question (and
  the result count 5).
\<close>

theorem user_turn_holds_trimmed_question:
  assumes "asked query \<noteq> []"
  shows "\<exists>raw l r.
           question query = Some raw \<and> raw = l @ asked query @ r \<and>
           list_all isspace l \<and> list_all isspace r \<and>
           \<not> isspace (hd (asked query)) \<and> \<not> isspace (last (asked query)) \<and>
           CONVERSATIONS (snd (chat_endpoint e query w)) (session_of e query) =
             Some (opened w (session_of e query) @ evidence_turns (retrieved e query)
                   @ \<lparr>role = ''user'', content = asked query\<rparr> # answer_turns e query w) \<and>
           calls (snd (chat_endpoint e query w)) =
             calls w @ [Retrieve (asked query) 5,
                        Invoke (to_langchain_messages (prompted e query w))]"
proof -
  from assms obtain raw where q: "question query = Some raw" and a: "asked query = strip raw"
    by (cases "question query") (auto simp add: asked_def strip_def)
  let ?l = "takeWhile isspace raw"
  let ?r = "rev (takeWhile isspace (rev (dropWhile isspace raw)))"
  have d: "raw = ?l @ asked query @ ?r" unfolding a by (rule strip_decomp)
  have l: "list_all isspace ?l" by (auto simp add: list_all_iff dest: set_takeWhileD)
  have r: "list_all isspace ?r" by (auto simp add: list_all_iff dest: set_takeWhileD)
  have h: "\<not> isspace (hd (asked query))" using assms unfolding a by (rule strip_hd)
  have t: "\<not> isspace (last (asked query))" using assms unfolding a by (rule strip_last)
  have c: "CONVERSATIONS (snd (chat_endpoint e query w)) (session_of e query) =
             Some (opened w (session_of e query) @ evidence_turns (retrieved e query)
                   @ \<lparr>role = ''user'', content = asked query\<rparr> # answer_turns e query w)"
    using assms by (simp add: CONVERSATIONS_after prompted_def user_turn_def)
  have k: "calls (snd (chat_endpoint e query w)) =
             calls w @ [Retrieve (asked query) 5,
                        Invoke (to_langchain_messages (prompted e query w))]"
    using assms by (simp add: calls_after exchange_calls_def)
  from q d l r h t c k show ?thesis by blast
qed

theorem user_turn_holds_trimmed_question_witness:
  "asked demo_query \<noteq> [] \<and>
   (\<exists>raw l r.
      question demo_query = Some raw \<and> raw = l @ ''What is GST?'' @ r \<and>
      list_all isspace l \<and> list_all isspace r \<and>
      \<not> isspace (hd ''What is GST?'') \<and> \<not> isspace (last ''What is GST?'') \<and>
      CONVERSATIONS (snd (chat_endpoint demo_env demo_query empty_world)) ''u-1'' =
        Some [\<lparr>role = ''system'', content = SYSTEM_PROMPT\<rparr>,
              \<lparr>role = ''assistant'', content = demo_block\<rparr>,
              \<lparr>role = ''user'', content = ''What is GST?''\<rparr>,
              \<lparr>role = ''assistant'', content = ''A tax.''\<rparr>] \<and>
      calls (snd (chat_endpoint demo_env demo_query empty_world)) =
        [Retrieve ''What is GST?'' 5,
         Invoke [SystemMessage SYSTEM_PROMPT, AIMessage demo_block, HumanMessage ''What is GST?'']])"
proof -
  have a: "answer_turns demo_env demo_query empty_world = [\<lparr>role = ''assistant'', content = ''A tax.''\<rparr>]"
    by (simp add: answer_turns_def demo_llm answer_turn_def)
  have p: "to_langchain_messages (prompted demo_env demo_query empty_world) =
      [SystemMessage SYSTEM_PROMPT, AIMessage demo_block, HumanMessage ''What is GST?'']"
    by (simp add: demo_prompted demo_transcript_def)
  have c: "calls empty_world = []" by (simp add: empty_world_def)
  have e: "evidence_turns (retrieved demo_env demo_query) = [\<lparr>role = ''assistant'', content = demo_block\<rparr>]"
    by (simp add: demo_retrieved evidence_turns_def demo_evidence)
  show ?thesis
    using user_turn_holds_trimmed_question [OF demo_nonblank, of demo_env empty_world]
    by (simp only: a p c e demo_session demo_opened demo_asked) (simp add: system_turn_def)
qed

subsection \<open>A failed exchange is not persisted\<close>

text \<open>
  Claim C10. When the question is not blank and the call of the language model
  raises, the sessions file is what it was before the exchange, whatever writing
  it would have done, while the transcript in memory holds the turns of the
  exchange. Any later exchange that returns a response and writes the file in
  full leaves in the file the dump of a store whose transcript of this session
  starts with those turns.
\<close>

theorem failed_inference_is_not_persisted:
  assumes "asked query \<noteq> []"
    and "llm_invoke e (to_langchain_messages (prompted e query w)) = Inl err"
  shows "sessions_file (snd (chat_endpoint e query w)) = sessions_file w \<and>
         CONVERSATIONS (snd (chat_endpoint e query w)) (session_of e query) = Some (prompted e query w) \<and>
         (\<forall>e' query' resp'.
            fst (chat_endpoint e' query' (snd (chat_endpoint e query w))) = Inr resp' \<and>
            file_write e' = WriteOk \<longrightarrow>
            (\<exists>more.
               CONVERSATIONS (snd (chat_endpoint e' query' (snd (chat_endpoint e query w))))
                 (session_of e query) = Some (prompted e query w @ more) \<and>
               sessions_file (snd (chat_endpoint e' query' (snd (chat_endpoint e query w)))) =
                 Some (json_dump e'
                   (CONVERSATIONS (snd (chat_endpoint e' query' (snd (chat_endpoint e query w))))))))"
proof -
  let ?w1 = "snd (chat_endpoint e query w)"
  have f: "sessions_file ?w1 = sessions_file w"
    using assms by (rule sessions_file_after_failure)
  have c: "CONVERSATIONS ?w1 (session_of e query) = Some (prompted e query w)"
    using assms by (simp add: CONVERSATIONS_after answer_turns_def)
  have later: "\<exists>more.
      CONVERSATIONS (snd (chat_endpoint e' query' ?w1)) (session_of e query)
        = Some (prompted e query w @ more) \<and>
      sessions_file (snd (chat_endpoint e' query' ?w1)) =
        Some (json_dump e' (CONVERSATIONS (snd (chat_endpoint e' query' ?w1))))"
    if ok: "fst (chat_endpoint e' query' ?w1) = Inr resp'" and wr: "file_write e' = WriteOk"
    for e' query' resp'
  proof -
    from step_extends [OF c, of e' query'] obtain more where
      "CONVERSATIONS (snd (chat_endpoint e' query' ?w1)) (session_of e query)
         = Some (prompted e query w @ more)" by blast
    moreover have "sessions_file (snd (chat_endpoint e' query' ?w1)) =
        Some (json_dump e' (CONVERSATIONS (snd (chat_endpoint e' query' ?w1))))"
      using ok wr by (rule sessions_file_after_success)
    ultimately show ?thesis by blast
  qed
  from f c later show ?thesis by blast
qed

theorem failed_inference_is_not_persisted_witness:
  "asked demo_query \<noteq> [] \<and>
   llm_invoke llm_down_env (to_langchain_messages (prompted llm_down_env demo_query empty_world))
     = Inl ''timeout'' \<and>
   sessions_file (snd (chat_endpoint llm_down_env demo_query empty_world)) = None \<and>
   CONVERSATIONS (snd (chat_endpoint llm_down_env demo_query empty_world)) ''u-1''
     = Some demo_pending \<and>
   fst (chat_endpoint demo_env followup_query
          (snd (chat_endpoint llm_down_env demo_query empty_world))) =
     Inr \<lparr>resp_answer = ''A tax.'', resp_session_id = Some ''u-1'',
          resp_citations = Some demo_citations\<rparr> \<and>
   file_write demo_env = WriteOk \<and>
   (\<exists>more.
      CONVERSATIONS (snd (chat_endpoint demo_env followup_query
                            (snd (chat_endpoint llm_down_env demo_query empty_world)))) ''u-1''
        = Some (demo_pending @ more) \<and>
      sessions_file (snd (chat_endpoint demo_env followup_query
                            (snd (chat_endpoint llm_down_env demo_query empty_world)))) =
        Some (json_dump demo_env
               (CONVERSATIONS (snd (chat_endpoint demo_env followup_query
                                     (snd (chat_endpoint llm_down_env demo_query empty_world)))))))"
proof -
  note t = failed_inference_is_not_persisted [OF demo_nonblank llm_down_fails, of empty_world]
  have f: "sessions_file empty_world = None" by (simp add: empty_world_def)
  from t have a: "sessions_file (snd (chat_endpoint llm_down_env demo_query empty_world)) = None"
    by (simp add: f)
  from t have b: "CONVERSATIONS (snd (chat_endpoint llm_down_env demo_query empty_world)) ''u-1''
     = Some demo_pending"
    by (simp add: llm_down_session llm_down_prompted)
  from t followup_response demo_writes
  have c: "\<exists>more.
      CONVERSATIONS (snd (chat_endpoint demo_env followup_query
                            (snd (chat_endpoint llm_down_env demo_query empty_world)))) ''u-1''
        = Some (demo_pending @ more) \<and>
      sessions_file (snd (chat_endpoint demo_env followup_query
                            (snd (chat_endpoint llm_down_env demo_query empty_world)))) =
        Some (json_dump demo_env
               (CONVERSATIONS (snd (chat_endpoint demo_env followup_query
                                     (snd (chat_endpoint llm_down_env demo_query empty_world))))))"
    unfolding llm_down_session llm_down_prompted by blast
  from a b c demo_nonblank llm_down_fails followup_response demo_writes show ?thesis by blast
qed

end
